theory Spec2Isabelle
  imports Complex_Main "HOL-Library.Word"
begin

section \<open>JavaScript strings\<close>

text \<open>
  A JavaScript string is a sequence of 16-bit code units. ASCII literals of the source
  are written through \<open>js\<close>.
\<close>

type_synonym jschar = "16 word"
type_synonym jsstring = "jschar list"

definition js :: "string \<Rightarrow> jsstring" where
  "js s = map (\<lambda>c. word_of_nat (of_char c)) s"

definition dquote :: jschar where
  "dquote = 0x22"

definition comma :: jschar where
  "comma = 0x2C"

definition newline :: jschar where
  "newline = 0x0A"

text \<open>
  \<open>String.prototype.trim\<close> strips the code units of the WhiteSpace and LineTerminator
  productions of ECMAScript from both ends: TAB, VT, FF, SP, NBSP, ZWNBSP, the Unicode
  space separators, and LF, CR, LS, PS.
\<close>

definition is_ws :: "jschar \<Rightarrow> bool" where
  "is_ws c \<longleftrightarrow>
     c = 0x09 \<or> c = 0x0A \<or> c = 0x0B \<or> c = 0x0C \<or> c = 0x0D \<or> c = 0x20 \<or>
     c = 0xA0 \<or> c = 0x1680 \<or> (0x2000 \<le> c \<and> c \<le> 0x200A) \<or>
     c = 0x2028 \<or> c = 0x2029 \<or> c = 0x202F \<or> c = 0x205F \<or> c = 0x3000 \<or>
     c = 0xFEFF"

definition trim :: "jsstring \<Rightarrow> jsstring" where
  "trim s = rev (dropWhile is_ws (rev (dropWhile is_ws s)))"

text \<open>
  \<open>s.split(sep)\<close> for a one-character separator: the pieces between the separators,
  always at least one piece. \<open>cur\<close> is the piece being read.
\<close>

fun split_from :: "jschar \<Rightarrow> jsstring \<Rightarrow> jsstring \<Rightarrow> jsstring list" where
  "split_from sep cur [] = [cur]"
| "split_from sep cur (c # cs) =
     (if c = sep then cur # split_from sep [] cs else split_from sep (cur @ [c]) cs)"

definition split :: "jschar \<Rightarrow> jsstring \<Rightarrow> jsstring list" where
  "split sep s = split_from sep [] s"

section \<open>Plain objects with string values\<close>

text \<open>
  The records built by \<open>parseCSV\<close> are plain objects (\<open>{}\<close>) whose property values are
  strings. An object is kept as the list of its own properties in the order in which
  \<open>Object.keys\<close> enumerates them: the keys that are array indices (canonical decimal
  numerals below \<open>2^32 - 1\<close>) first, in ascending numeric order, then every other key
  in the order of creation.
\<close>

type_synonym jsobj = "(jsstring \<times> jsstring) list"

definition is_digit :: "jschar \<Rightarrow> bool" where
  "is_digit c \<longleftrightarrow> 0x30 \<le> c \<and> c \<le> 0x39"

definition digits_value :: "jsstring \<Rightarrow> int" where
  "digits_value k = foldl (\<lambda>n c. 10 * n + (uint c - 0x30)) 0 k"

definition is_array_index :: "jsstring \<Rightarrow> bool" where
  "is_array_index k \<longleftrightarrow>
     k \<noteq> [] \<and> list_all is_digit k \<and> (length k = 1 \<or> hd k \<noteq> 0x30) \<and>
     digits_value k < 2 ^ 32 - 1"

definition keys :: "jsobj \<Rightarrow> jsstring list" where
  "keys obj = map fst obj"

definition own_prop :: "jsobj \<Rightarrow> jsstring \<Rightarrow> jsstring option" where
  "own_prop obj k = map_of obj k"

fun insert_index :: "jsstring \<Rightarrow> jsstring \<Rightarrow> jsobj \<Rightarrow> jsobj" where
  "insert_index k v [] = [(k, v)]"
| "insert_index k v ((k', v') # rest) =
     (if is_array_index k' \<and> digits_value k' < digits_value k
      then (k', v') # insert_index k v rest
      else (k, v) # (k', v') # rest)"

text \<open>
  The assignment \<open>obj[k] = v\<close> with a string \<open>v\<close> on such an object. The key
  \<open>__proto__\<close> reaches the setter inherited from \<open>Object.prototype\<close>, which ignores a
  value that is neither an object nor null, so no own property is created. An
  existing own property keeps its place and takes the new value; a new one is
  created.
\<close>

definition obj_set :: "jsobj \<Rightarrow> jsstring \<Rightarrow> jsstring \<Rightarrow> jsobj" where
  "obj_set obj k v =
     (if k = js ''__proto__'' then obj
      else if k \<in> set (keys obj) then map (\<lambda>(k', v'). if k' = k then (k', v) else (k', v')) obj
      else if is_array_index k then insert_index k v obj
      else obj @ [(k, v)])"

section \<open>The CSV parser (\<open>SheetsCSV\<close> in ceni-repositorio-dinamico.js)\<close>

text \<open>
  The state of the \<open>for\<close> loop of \<open>parseCSVLine\<close>: the fields pushed so far, the field
  being accumulated and the quote flag. The loop variable is the rest of the line;
  \<open>nextChar\<close> is the head of what follows the current character, when there is one.
\<close>

record line_state =
  result :: "jsstring list"
  current :: jsstring
  inQuotes :: bool

fun parseCSVLine_loop :: "jsstring \<Rightarrow> line_state \<Rightarrow> line_state" where
  "parseCSVLine_loop [] st = st"
| "parseCSVLine_loop [char] st =
     (if char = dquote then st\<lparr>inQuotes := \<not> inQuotes st\<rparr>
      else if char = comma \<and> \<not> inQuotes st
      then st\<lparr>result := result st @ [trim (current st)], current := []\<rparr>
      else st\<lparr>current := current st @ [char]\<rparr>)"
| "parseCSVLine_loop (char # nextChar # rest) st =
     (if char = dquote then
        (if inQuotes st \<and> nextChar = dquote
         then parseCSVLine_loop rest (st\<lparr>current := current st @ [dquote]\<rparr>)
         else parseCSVLine_loop (nextChar # rest) (st\<lparr>inQuotes := \<not> inQuotes st\<rparr>))
      else if char = comma \<and> \<not> inQuotes st
      then parseCSVLine_loop (nextChar # rest)
             (st\<lparr>result := result st @ [trim (current st)], current := []\<rparr>)
      else parseCSVLine_loop (nextChar # rest) (st\<lparr>current := current st @ [char]\<rparr>))"

definition parseCSVLine :: "jsstring \<Rightarrow> jsstring list" where
  "parseCSVLine line =
     (let st = parseCSVLine_loop line \<lparr>result = [], current = [], inQuotes = False\<rparr>
      in result st @ [trim (current st)])"

text \<open>\<open>values[index] || ''\<close>: an index out of range reads \<open>undefined\<close>, which is falsy,
  as the empty string is.\<close>

definition cell :: "jsstring list \<Rightarrow> nat \<Rightarrow> jsstring" where
  "cell values index =
     (if index < length values \<and> values ! index \<noteq> [] then values ! index else [])"

text \<open>\<open>headers.forEach((header, index) => { obj[header] = values[index] || ''; })\<close>,
  from position \<open>index\<close> on.\<close>

fun forEach_header :: "jsstring list \<Rightarrow> nat \<Rightarrow> jsstring list \<Rightarrow> jsobj \<Rightarrow> jsobj" where
  "forEach_header [] index values obj = obj"
| "forEach_header (header # headers) index values obj =
     forEach_header headers (Suc index) values (obj_set obj header (cell values index))"

definition nonEmptyLines :: "jsstring \<Rightarrow> jsstring list" where
  "nonEmptyLines csvText = filter (\<lambda>line. length (trim line) > 0) (split newline csvText)"

definition parseCSV :: "jsstring \<Rightarrow> jsobj list" where
  "parseCSV csvText =
     (let lines = nonEmptyLines csvText
      in if length lines < 2 then []
         else let headers = parseCSVLine (lines ! 0)
              in map (\<lambda>line. forEach_header headers 0 (parseCSVLine line) [])
                     (drop 1 lines))"

section \<open>The local cache and the clients\<close>

text \<open>
  The world the clients run in: \<open>localStorage\<close>, the clock read by \<open>Date.now()\<close>, the
  number of HTTP requests issued so far, and the trace of what the clients did so far
  that can be seen from outside: each HTTP request and each delay awaited with
  \<open>setTimeout\<close>, in order. The items of \<open>localStorage\<close> are the \<open>{timestamp, data}\<close> objects that
  \<open>set\<close> serialises: \<open>JSON.parse\<close> gives back what \<open>JSON.stringify\<close> was given, so an
  item is kept as the object itself. Both scripts use the key prefix \<open>ceni_\<close>. The
  \<open>catch\<close> branches of \<open>set\<close> and \<open>get\<close> are reached only when the storage itself throws
  or holds text that was not written by \<open>set\<close>; the storage modelled here does neither.
\<close>

record 'd cacheData =
  timestamp :: int
  data :: 'd

datatype event = HttpRequest | Timeout int

record 'd world =
  localStorage :: "jsstring \<Rightarrow> 'd cacheData option"
  now :: int
  requests :: nat
  events :: "event list"

text \<open>
  The network: the request with number \<open>n\<close> (counted from 0) takes some time and then
  either rejects or yields a response with its \<open>ok\<close> flag, status, status text and body.
\<close>

datatype 'b response = Rejected | Response bool nat jsstring 'b

type_synonym 'b network = "nat \<Rightarrow> int \<times> 'b response"

subsection \<open>JSON values (ceni-dynamic-data.js)\<close>

datatype json =
  JNull | JBool bool | JNum real | JStr jsstring | JArr "json list" | JObj "(jsstring \<times> json) list"

text \<open>The truthiness of a value, as \<open>if (v)\<close> tests it.\<close>

fun truthy :: "json \<Rightarrow> bool" where
  "truthy JNull = False"
| "truthy (JBool b) = b"
| "truthy (JNum n) = (n \<noteq> 0)"
| "truthy (JStr s) = (s \<noteq> [])"
| "truthy (JArr xs) = True"
| "truthy (JObj props) = True"

datatype error =
  FetchRejected
  | HttpError nat jsstring
  | JsonRejected
  | NullPayload
  | PayloadError json

text \<open>
  The errors of the two \<open>try\<close> blocks: \<open>fetch(url)\<close> rejected; \<open>new Error\<close> built from the
  status and status text of a response that is not \<open>ok\<close>; \<open>response.json()\<close> rejected
  because the body is not JSON; the \<open>TypeError\<close> of reading \<open>data.error\<close> when \<open>data\<close> is
  \<open>null\<close>; \<open>new Error(data.error)\<close>.

  \<open>data.error\<close>: the property of an object, \<open>undefined\<close> (\<open>None\<close>) where there is none
  and on the other values, a \<open>TypeError\<close> on \<open>null\<close>.
\<close>

fun data_error :: "json \<Rightarrow> error + json option" where
  "data_error JNull = Inl NullPayload"
| "data_error (JObj props) = Inr (map_of props (js ''error''))"
| "data_error v = Inr None"

record api_config =
  CACHE_DURATION :: int
  RETRY_ATTEMPTS :: nat
  RETRY_DELAY :: int

definition API_CONFIG :: api_config where
  "API_CONFIG = \<lparr>CACHE_DURATION = 1800000, RETRY_ATTEMPTS = 3, RETRY_DELAY = 1000\<rparr>"

definition LocalCache_set :: "jsstring \<Rightarrow> 'd \<Rightarrow> 'd world \<Rightarrow> 'd world" where
  "LocalCache_set key d w =
     w\<lparr>localStorage := (localStorage w)(js ''ceni_'' @ key \<mapsto> \<lparr>timestamp = now w, data = d\<rparr>)\<rparr>"

definition LocalCache_get :: "api_config \<Rightarrow> jsstring \<Rightarrow> 'd world \<Rightarrow> 'd option \<times> 'd world" where
  "LocalCache_get cfg key w =
     (case localStorage w (js ''ceni_'' @ key) of
        None \<Rightarrow> (None, w)
      | Some cacheData \<Rightarrow>
          (let age = now w - timestamp cacheData
           in if age < CACHE_DURATION cfg then (Some (data cacheData), w)
              else (None, w\<lparr>localStorage := (localStorage w)(js ''ceni_'' @ key := None)\<rparr>)))"

text \<open>\<open>if (cached)\<close>: what \<open>LocalCache.get\<close> returned counts as a hit when it is truthy.\<close>

definition cache_hit :: "json option \<Rightarrow> json option" where
  "cache_hit cached = (case cached of None \<Rightarrow> None | Some v \<Rightarrow> if truthy v then Some v else None)"

text \<open>The \<open>try\<close> block of \<open>CENIApiClient.fetch\<close> after the request has settled: the
  error thrown, or the payload (the source's \<open>data\<close>, written \<open>data'\<close> here).\<close>

definition try_response :: "json option response \<Rightarrow> error + json" where
  "try_response r =
     (case r of
        Rejected \<Rightarrow> Inl FetchRejected
      | Response ok status statusText body \<Rightarrow>
          if \<not> ok then Inl (HttpError status statusText)
          else (case body of
                  None \<Rightarrow> Inl JsonRejected
                | Some data' \<Rightarrow>
                    (case data_error data' of
                       Inl e \<Rightarrow> Inl e
                     | Inr None \<Rightarrow> Inr data'
                     | Inr (Some e) \<Rightarrow> if truthy e then Inl (PayloadError e) else Inr data')))"

text \<open>
  \<open>CENIApiClient.fetch(endpoint, params, attempt)\<close>; \<open>attempt\<close> is 1 when the caller
  leaves it out. \<open>stringify\<close> stands for \<open>JSON.stringify\<close> on the parameter object. The
  result is the value the promise resolves with (\<open>Inr\<close>) or rejects with (\<open>Inl\<close>). The
  clock moves by the time the request takes and by each awaited delay.
\<close>

function CENIApiClient_fetch ::
  "api_config \<Rightarrow> ('p \<Rightarrow> jsstring) \<Rightarrow> json option network \<Rightarrow> jsstring \<Rightarrow> 'p \<Rightarrow> nat \<Rightarrow>
   json world \<Rightarrow> (error + json) \<times> json world" where
  "CENIApiClient_fetch cfg stringify net endpoint params attempt w =
     (let cacheKey = endpoint @ js ''_'' @ stringify params;
          (cached, w1) = LocalCache_get cfg cacheKey w
      in case cache_hit cached of
           Some v \<Rightarrow> (Inr v, w1)
         | None \<Rightarrow>
             (let (latency, response) = net (requests w1);
                  w2 = w1\<lparr>requests := Suc (requests w1), events := events w1 @ [HttpRequest],
                          now := now w1 + latency\<rparr>
              in case try_response response of
                   Inr data' \<Rightarrow> (Inr data', LocalCache_set cacheKey data' w2)
                 | Inl error \<Rightarrow>
                     if attempt < RETRY_ATTEMPTS cfg then
                       (let delay = RETRY_DELAY cfg * 2 ^ (attempt - 1);
                            w3 = w2\<lparr>events := events w2 @ [Timeout delay], now := now w2 + delay\<rparr>
                        in CENIApiClient_fetch cfg stringify net endpoint params (attempt + 1) w3)
                     else (Inl error, w2)))"
  by pat_completeness auto
termination
  by (relation "measure (\<lambda>(cfg, stringify, net, endpoint, params, attempt, w).
        RETRY_ATTEMPTS cfg - attempt)") auto

declare CENIApiClient_fetch.simps [simp del]

text \<open>The storage holds nothing that \<open>CENIApiClient.fetch\<close> would take as a hit under
  \<open>cacheKey\<close>, whatever the clock shows: no item, or an item with falsy data.\<close>

definition no_hit :: "jsstring \<Rightarrow> json world \<Rightarrow> bool" where
  "no_hit cacheKey w =
     (case localStorage w (js ''ceni_'' @ cacheKey) of
        None \<Rightarrow> True
      | Some item \<Rightarrow> \<not> truthy (data item))"

subsection \<open>The CSV client (ceni-repositorio-dinamico.js)\<close>

definition CONFIG_CACHE_DURATION :: int where
  "CONFIG_CACHE_DURATION = 5 * 60 * 1000"

definition CacheManager_set :: "jsstring \<Rightarrow> 'd \<Rightarrow> 'd world \<Rightarrow> 'd world" where
  "CacheManager_set key d w =
     w\<lparr>localStorage := (localStorage w)(js ''ceni_'' @ key \<mapsto> \<lparr>timestamp = now w, data = d\<rparr>)\<rparr>"

text \<open>\<open>CacheManager.get\<close>, with \<open>CONFIG.CACHE_DURATION\<close> as the parameter \<open>duration\<close>.\<close>

definition CacheManager_get :: "int \<Rightarrow> jsstring \<Rightarrow> 'd world \<Rightarrow> 'd option \<times> 'd world" where
  "CacheManager_get duration key w =
     (case localStorage w (js ''ceni_'' @ key) of
        None \<Rightarrow> (None, w)
      | Some cacheItem \<Rightarrow>
          (let isExpired = now w - timestamp cacheItem > duration
           in if isExpired
              then (None, w\<lparr>localStorage := (localStorage w)(js ''ceni_'' @ key := None)\<rparr>)
              else (Some (data cacheItem), w)))"

text \<open>
  \<open>SheetsCSV.fetchSheet(gid)\<close>. The cached value is an array of records, which is truthy
  whatever it holds. The \<open>catch\<close> block logs the error and throws it again.
\<close>

definition fetchSheet ::
  "jsstring network \<Rightarrow> jsstring \<Rightarrow> jsobj list world \<Rightarrow> (error + jsobj list) \<times> jsobj list world" where
  "fetchSheet net gid w =
     (let (cachedData, w1) = CacheManager_get CONFIG_CACHE_DURATION gid w
      in case cachedData of
           Some d \<Rightarrow> (Inr d, w1)
         | None \<Rightarrow>
             (let (latency, response) = net (requests w1);
                  w2 = w1\<lparr>requests := Suc (requests w1), events := events w1 @ [HttpRequest],
                          now := now w1 + latency\<rparr>
              in case response of
                   Rejected \<Rightarrow> (Inl FetchRejected, w2)
                 | Response ok status statusText csvText \<Rightarrow>
                     if \<not> ok then (Inl (HttpError status statusText), w2)
                     else if csvText = [] \<or> length (trim csvText) = 0 then (Inr [], w2)
                     else (let parsedData = parseCSV csvText
                           in if length parsedData = 0 then (Inr [], w2)
                              else (Inr parsedData, CacheManager_set gid parsedData w2))))"

section \<open>Example worlds\<close>

text \<open>
  Concrete worlds and networks on which the theorems below are instantiated: an empty
  storage; a server that fails twice and then answers; a server that is down; a server
  whose payload carries an error; a server whose payload carries the empty string as its
  \<open>error\<close> property; a sheet server that fails once and then answers.
  \<open>no_params\<close> is \<open>JSON.stringify\<close> on the empty parameter object.
\<close>

definition empty_world :: "'d world" where
  "empty_world = \<lparr>localStorage = (\<lambda>k. None), now = 0, requests = 0, events = []\<rparr>"

definition no_params :: "unit \<Rightarrow> jsstring" where
  "no_params p = js ''{}''"

definition net_recovers :: "json option network" where
  "net_recovers n =
     (if n < 2 then (20, Response False 503 (js ''Service Unavailable'') None)
      else (20, Response True 200 (js ''OK'') (Some (JObj [(js ''data'', JArr [])]))))"

definition net_down :: "json option network" where
  "net_down n = (20, Response False 503 (js ''Service Unavailable'') None)"

definition net_payload_error :: "json option network" where
  "net_payload_error n =
     (20, Response True 200 (js ''OK'') (Some (JObj [(js ''error'', JStr (js ''sem dados''))])))"

definition net_empty_error :: "json option network" where
  "net_empty_error n =
     (20, Response True 200 (js ''OK'') (Some (JObj [(js ''error'', JStr [])])))"

definition sheet_net_recovers :: "jsstring network" where
  "sheet_net_recovers n =
     (if n = 0 then (20, Response False 503 (js ''Service Unavailable'') [])
      else (20, Response True 200 (js ''OK'') (js ''a,b'' @ [newline] @ js ''1,2'')))"

section \<open>Properties of trimming, splitting and the line loop\<close>

lemma trim_empty_iff: "trim l = [] \<longleftrightarrow> (\<forall>c\<in>set l. is_ws c)"
proof -
  have "trim l = [] \<longleftrightarrow> (\<forall>c\<in>set (dropWhile is_ws l). is_ws c)"
    by (simp add: trim_def dropWhile_eq_Nil_conv)
  also have "\<dots> \<longleftrightarrow> dropWhile is_ws l = []"
  proof
    assume a: "\<forall>c\<in>set (dropWhile is_ws l). is_ws c"
    show "dropWhile is_ws l = []"
    proof (rule ccontr)
      assume "dropWhile is_ws l \<noteq> []"
      then have "\<not> is_ws (hd (dropWhile is_ws l))" "hd (dropWhile is_ws l) \<in> set (dropWhile is_ws l)"
        by (simp_all add: hd_dropWhile)
      with a show False by blast
    qed
  qed (auto dest: set_dropWhileD)
  also have "\<dots> \<longleftrightarrow> (\<forall>c\<in>set l. is_ws c)"
    by (simp add: dropWhile_eq_Nil_conv)
  finally show ?thesis .
qed

lemma trim_ends:
  assumes "trim s \<noteq> []"
  shows "\<not> is_ws (hd (trim s))" and "\<not> is_ws (last (trim s))"
proof -
  let ?d = "dropWhile is_ws s"
  let ?e = "dropWhile is_ws (rev ?d)"
  from assms have e: "?e \<noteq> []" by (simp add: trim_def)
  then have d: "?d \<noteq> []" by (cases "?d") auto
  have "last (trim s) = hd ?e" using e by (simp add: trim_def last_rev)
  then show "\<not> is_ws (last (trim s))" using e by (simp add: hd_dropWhile)
  have "hd (trim s) = last ?e" using e by (simp add: trim_def hd_rev)
  also have "\<dots> = last (rev ?d)"
    using e by (metis append_Nil2 last_appendR takeWhile_dropWhile_id)
  also have "\<dots> = hd ?d" using d by (simp add: last_rev)
  finally show "\<not> is_ws (hd (trim s))" using d by (simp add: hd_dropWhile)
qed

lemma trim_fixed:
  assumes "s = [] \<or> (\<not> is_ws (hd s) \<and> \<not> is_ws (last s))"
  shows "trim s = s"
proof (cases "s = []")
  case True then show ?thesis by (simp add: trim_def)
next
  case False
  with assms have h: "\<not> is_ws (hd s)" and l: "\<not> is_ws (last s)" by auto
  from False h have 1: "dropWhile is_ws s = s" by (cases s) auto
  from False l have 2: "dropWhile is_ws (rev s) = rev s" by (cases "rev s") (auto simp: last_rev hd_rev[symmetric])
  show ?thesis by (simp add: trim_def 1 2)
qed

lemma trim_idem: "trim (trim s) = trim s"
  by (rule trim_fixed) (use trim_ends in blast)

lemma loop_other:
  "char \<noteq> dquote \<Longrightarrow>
   parseCSVLine_loop (char # rest) st =
     parseCSVLine_loop rest
       (if char = comma \<and> \<not> inQuotes st
        then st\<lparr>result := result st @ [trim (current st)], current := []\<rparr>
        else st\<lparr>current := current st @ [char]\<rparr>)"
  by (cases rest) simp_all

lemma loop_quote_toggle:
  "\<not> (inQuotes st \<and> rest \<noteq> [] \<and> hd rest = dquote) \<Longrightarrow>
   parseCSVLine_loop (dquote # rest) st = parseCSVLine_loop rest (st\<lparr>inQuotes := \<not> inQuotes st\<rparr>)"
  by (cases rest) auto

lemma loop_quote_pair:
  "inQuotes st \<Longrightarrow>
   parseCSVLine_loop (dquote # dquote # rest) st =
     parseCSVLine_loop rest (st\<lparr>current := current st @ [dquote]\<rparr>)"
  by simp

lemma loop_quoted_run:
  "dquote \<notin> set s \<Longrightarrow> inQuotes st \<Longrightarrow>
   parseCSVLine_loop (s @ rest) st = parseCSVLine_loop rest (st\<lparr>current := current st @ s\<rparr>)"
proof (induction s arbitrary: st)
  case Nil then show ?case by simp
next
  case (Cons c s)
  then have c: "c \<noteq> dquote" by auto
  show ?case using Cons by (simp add: loop_other[OF c])
qed

lemma split_from_run:
  "sep \<notin> set s \<Longrightarrow> split_from sep cur (s @ rest) = split_from sep (cur @ s) rest"
  by (induction s arbitrary: cur) auto

lemma loop_unquoted:
  "dquote \<notin> set line \<Longrightarrow> \<not> inQuotes st \<Longrightarrow>
   result (parseCSVLine_loop line st) @ [trim (current (parseCSVLine_loop line st))] =
     result st @ map trim (split_from comma (current st) line)"
proof (induction line arbitrary: st)
  case Nil then show ?case by simp
next
  case (Cons c line)
  then have c: "c \<noteq> dquote" by auto
  show ?case using Cons by (simp add: loop_other[OF c])
qed

lemma loop_result_trimmed:
  "\<forall>f\<in>set (result st). trim f = f \<Longrightarrow> \<forall>f\<in>set (result (parseCSVLine_loop line st)). trim f = f"
  by (induction line st rule: parseCSVLine_loop.induct) (auto simp: trim_idem)

section \<open>Claims about the CSV parser\<close>

lemma split_no_sep: "sep \<notin> set s \<Longrightarrow> split sep s = [s]"
  using split_from_run[of sep s "[]" "[]"] by (simp add: split_def)

lemma nonEmptyLines_char:
  "nonEmptyLines csvText = filter (\<lambda>line. \<exists>c\<in>set line. \<not> is_ws c) (split newline csvText)"
  by (simp add: nonEmptyLines_def trim_empty_iff)

lemma parseCSVLine_quoted:
  "dquote \<notin> set s \<Longrightarrow> parseCSVLine (dquote # s @ [dquote]) = [trim s]"
  by (simp add: parseCSVLine_def loop_quote_toggle loop_quoted_run)

lemma parseCSVLine_unquoted:
  "dquote \<notin> set line \<Longrightarrow> parseCSVLine line = map trim (split comma line)"
  using loop_unquoted[of line "\<lparr>result = [], current = [], inQuotes = False\<rparr>"]
  by (simp add: parseCSVLine_def split_def Let_def)

text \<open>
  Claim C6. In the line loop a comma read inside quotes is appended to the current field,
  and a comma read outside quotes pushes the trimmed current field and starts a new one.
  Hence a quoted text without quote characters is one field, whatever commas it holds,
  a line without quote characters is split at every comma, and the line \<open>"a,b"\<close> parses as
  the single value \<open>a,b\<close>.
\<close>

theorem C6_comma:
  "(inQuotes st \<longrightarrow>
      parseCSVLine_loop (comma # rest) st =
        parseCSVLine_loop rest (st\<lparr>current := current st @ [comma]\<rparr>)) \<and>
   (\<not> inQuotes st \<longrightarrow>
      parseCSVLine_loop (comma # rest) st =
        parseCSVLine_loop rest (st\<lparr>result := result st @ [trim (current st)], current := []\<rparr>)) \<and>
   (dquote \<notin> set s \<longrightarrow> parseCSVLine (dquote # s @ [dquote]) = [trim s]) \<and>
   (dquote \<notin> set line \<longrightarrow> parseCSVLine line = map trim (split comma line)) \<and>
   parseCSVLine (dquote # js ''a,b'' @ [dquote]) = [js ''a,b'']"
proof -
  have ne: "comma \<noteq> dquote" by (simp add: comma_def dquote_def)
  have ex: "parseCSVLine (dquote # js ''a,b'' @ [dquote]) = [js ''a,b'']" by code_simp
  show ?thesis
    using loop_other[OF ne, of rest st] parseCSVLine_quoted[of s] parseCSVLine_unquoted[of line] ex
    by simp
qed

theorem C6_comma_witness:
  "parseCSVLine_loop (comma # js ''b'') \<lparr>result = [], current = js ''a'', inQuotes = True\<rparr> =
     \<lparr>result = [], current = js ''a,b'', inQuotes = True\<rparr> \<and>
   parseCSVLine_loop (comma # js ''b'') \<lparr>result = [], current = js ''a'', inQuotes = False\<rparr> =
     \<lparr>result = [js ''a''], current = js ''b'', inQuotes = False\<rparr> \<and>
   parseCSVLine (dquote # js ''x, y'' @ [dquote]) = [js ''x, y''] \<and>
   parseCSVLine (js ''a, b,c'') = [js ''a'', js ''b'', js ''c'']"
proof -
  have 1: "inQuotes \<lparr>result = [], current = js ''a'', inQuotes = True\<rparr>" by simp
  have 2: "\<not> inQuotes \<lparr>result = [], current = js ''a'', inQuotes = False\<rparr>" by simp
  have 3: "dquote \<notin> set (js ''x, y'')" by code_simp
  have 4: "dquote \<notin> set (js ''a, b,c'')" by code_simp
  have 5: "trim (js ''x, y'') = js ''x, y''" by code_simp
  have 6: "map trim (split comma (js ''a, b,c'')) = [js ''a'', js ''b'', js ''c'']" by code_simp
  have 7: "parseCSVLine_loop (js ''b'') \<lparr>result = [], current = js ''a'' @ [comma], inQuotes = True\<rparr>
     = \<lparr>result = [], current = js ''a,b'', inQuotes = True\<rparr>" by code_simp
  have 8: "parseCSVLine_loop (js ''b'') \<lparr>result = [trim (js ''a'')], current = [], inQuotes = False\<rparr>
     = \<lparr>result = [js ''a''], current = js ''b'', inQuotes = False\<rparr>" by code_simp
  from C6_comma[of "\<lparr>result = [], current = js ''a'', inQuotes = True\<rparr>" "js ''b''" "js ''x, y''" "js ''a, b,c''"]
       C6_comma[of "\<lparr>result = [], current = js ''a'', inQuotes = False\<rparr>" "js ''b''" "js ''x, y''" "js ''a, b,c''"]
       1 2 3 4 5 6 7 8
  show ?thesis by simp
qed

lemma split_at_sep: "sep \<notin> set s \<Longrightarrow> split sep (s @ sep # rest) = s # split sep rest"
  using split_from_run[of sep s "[]" "sep # rest"] by (simp add: split_def)

lemma parseCSV_few: "length (nonEmptyLines csvText) < 2 \<Longrightarrow> parseCSV csvText = []"
  by (simp add: parseCSV_def)

lemma parseCSV_header_only:
  assumes "newline \<notin> set header"
  shows "parseCSV header = []" and "parseCSV (header @ [newline]) = []"
proof -
  have "length (nonEmptyLines header) \<le> 1"
    using assms by (simp add: nonEmptyLines_def split_no_sep)
  then show "parseCSV header = []" by (simp add: parseCSV_few)
  have "split newline (header @ [newline]) = [header, []]"
    using split_at_sep[OF assms, of "[]"] by (simp add: split_def)
  then have "length (nonEmptyLines (header @ [newline])) \<le> 1"
    by (simp add: nonEmptyLines_def trim_def)
  then show "parseCSV (header @ [newline]) = []" by (simp add: parseCSV_few)
qed

text \<open>
  Claim C8. The lines kept by \<open>parseCSV\<close> are exactly the lines holding a character that is
  not white space; with fewer than two of them the result is empty; in particular a text
  that is a single header line, with or without a final line break, gives no record.
\<close>

theorem C8_too_few_lines:
  "nonEmptyLines csvText =
     filter (\<lambda>line. \<exists>c\<in>set line. \<not> is_ws c) (split newline csvText) \<and>
   (length (nonEmptyLines csvText) < 2 \<longrightarrow> parseCSV csvText = []) \<and>
   (newline \<notin> set header \<longrightarrow> parseCSV header = [] \<and> parseCSV (header @ [newline]) = [])"
  using nonEmptyLines_char[of csvText] parseCSV_few[of csvText] parseCSV_header_only[of header]
  by blast

theorem C8_too_few_lines_witness:
  "nonEmptyLines (js ''a,b'' @ [newline] @ js ''  '' @ [newline]) = [js ''a,b''] \<and>
   parseCSV (js ''a,b'' @ [newline] @ js ''  '' @ [newline]) = [] \<and>
   parseCSV (js ''Titulo,Link'') = [] \<and> parseCSV (js ''Titulo,Link'' @ [newline]) = []"
proof -
  have 1: "filter (\<lambda>line. \<exists>c\<in>set line. \<not> is_ws c)
            (split newline (js ''a,b'' @ [newline] @ js ''  '' @ [newline])) = [js ''a,b'']"
    by code_simp
  have 2: "newline \<notin> set (js ''Titulo,Link'')" by code_simp
  from C8_too_few_lines[of "js ''a,b'' @ [newline] @ js ''  '' @ [newline]" "js ''Titulo,Link''"] 1 2
  show ?thesis by simp
qed

lemma parseCSVLine_escaped:
  assumes "dquote \<notin> set s" "dquote \<notin> set t"
  shows "parseCSVLine (dquote # s @ [dquote, dquote] @ t @ [dquote]) = [trim (s @ [dquote] @ t)]"
proof -
  let ?st0 = "\<lparr>result = [], current = [], inQuotes = False\<rparr>"
  have "parseCSVLine_loop (dquote # s @ [dquote, dquote] @ t @ [dquote]) ?st0
      = parseCSVLine_loop (s @ dquote # dquote # t @ [dquote]) (?st0\<lparr>inQuotes := True\<rparr>)"
    by (simp add: loop_quote_toggle)
  also have "\<dots> = parseCSVLine_loop (dquote # dquote # t @ [dquote]) \<lparr>result = [], current = s, inQuotes = True\<rparr>"
    using assms(1) by (simp add: loop_quoted_run)
  also have "\<dots> = parseCSVLine_loop (t @ [dquote]) \<lparr>result = [], current = s @ [dquote], inQuotes = True\<rparr>"
    by simp
  also have "\<dots> = parseCSVLine_loop [dquote] \<lparr>result = [], current = s @ [dquote] @ t, inQuotes = True\<rparr>"
    using assms(2) by (simp add: loop_quoted_run)
  finally show ?thesis by (simp add: parseCSVLine_def)
qed

text \<open>
  Claim C7. A quote character toggles the inside-quotes flag, except that inside quotes a
  quote followed by another quote appends one literal quote and consumes both. Hence
  \<open>"s""t"\<close> is the single field \<open>s"t\<close> (trimmed) for quote-free \<open>s\<close> and \<open>t\<close>, and the line
  \<open>"a""b"\<close> parses as \<open>a"b\<close>.
\<close>

theorem C7_quote:
  "(inQuotes st \<longrightarrow>
      parseCSVLine_loop (dquote # dquote # rest) st =
        parseCSVLine_loop rest (st\<lparr>current := current st @ [dquote]\<rparr>)) \<and>
   (\<not> inQuotes st \<longrightarrow>
      parseCSVLine_loop (dquote # rest) st = parseCSVLine_loop rest (st\<lparr>inQuotes := True\<rparr>)) \<and>
   (inQuotes st \<and> (rest = [] \<or> hd rest \<noteq> dquote) \<longrightarrow>
      parseCSVLine_loop (dquote # rest) st = parseCSVLine_loop rest (st\<lparr>inQuotes := False\<rparr>)) \<and>
   (dquote \<notin> set s \<and> dquote \<notin> set t \<longrightarrow>
      parseCSVLine (dquote # s @ [dquote, dquote] @ t @ [dquote]) = [trim (s @ [dquote] @ t)]) \<and>
   parseCSVLine (dquote # js ''a'' @ [dquote, dquote] @ js ''b'' @ [dquote]) =
     [js ''a'' @ [dquote] @ js ''b'']"
proof -
  have ex: "parseCSVLine (dquote # js ''a'' @ [dquote, dquote] @ js ''b'' @ [dquote]) =
     [js ''a'' @ [dquote] @ js ''b'']" by code_simp
  have a: "inQuotes st \<Longrightarrow> parseCSVLine_loop (dquote # dquote # rest) st =
        parseCSVLine_loop rest (st\<lparr>current := current st @ [dquote]\<rparr>)"
    by (rule loop_quote_pair)
  have b: "\<not> inQuotes st \<Longrightarrow>
      parseCSVLine_loop (dquote # rest) st = parseCSVLine_loop rest (st\<lparr>inQuotes := True\<rparr>)"
    by (simp add: loop_quote_toggle)
  have c: "inQuotes st \<and> (rest = [] \<or> hd rest \<noteq> dquote) \<Longrightarrow>
      parseCSVLine_loop (dquote # rest) st = parseCSVLine_loop rest (st\<lparr>inQuotes := False\<rparr>)"
    by (auto simp add: loop_quote_toggle)
  show ?thesis using a b c ex parseCSVLine_escaped[of s t] by blast
qed

theorem C7_quote_witness:
  "parseCSVLine_loop (dquote # dquote # js ''b'') \<lparr>result = [], current = js ''a'', inQuotes = True\<rparr> =
     \<lparr>result = [], current = js ''a'' @ [dquote] @ js ''b'', inQuotes = True\<rparr> \<and>
   parseCSVLine_loop (dquote # js ''b'') \<lparr>result = [], current = js ''a'', inQuotes = False\<rparr> =
     \<lparr>result = [], current = js ''ab'', inQuotes = True\<rparr> \<and>
   parseCSVLine_loop (dquote # js ''b'') \<lparr>result = [], current = js ''a'', inQuotes = True\<rparr> =
     \<lparr>result = [], current = js ''ab'', inQuotes = False\<rparr> \<and>
   parseCSVLine (dquote # js ''x'' @ [dquote, dquote] @ js ''y'' @ [dquote]) = [js ''x'' @ [dquote] @ js ''y'']"
proof -
  let ?i = "\<lparr>result = [], current = js ''a'', inQuotes = True\<rparr>"
  let ?o = "\<lparr>result = [], current = js ''a'', inQuotes = False\<rparr>"
  have 1: "inQuotes ?i" "\<not> inQuotes ?o" by simp_all
  have 2: "js ''b'' = [] \<or> hd (js ''b'') \<noteq> dquote" by code_simp
  have 3: "dquote \<notin> set (js ''x'')" "dquote \<notin> set (js ''y'')" by code_simp+
  have 4: "trim (js ''x'' @ [dquote] @ js ''y'') = js ''x'' @ [dquote] @ js ''y''" by code_simp
  have 5: "parseCSVLine_loop (js ''b'') (?i\<lparr>current := current ?i @ [dquote]\<rparr>) =
     \<lparr>result = [], current = js ''a'' @ [dquote] @ js ''b'', inQuotes = True\<rparr>" by code_simp
  have 6: "parseCSVLine_loop (js ''b'') (?o\<lparr>inQuotes := True\<rparr>) =
     \<lparr>result = [], current = js ''ab'', inQuotes = True\<rparr>" by code_simp
  have 7: "parseCSVLine_loop (js ''b'') (?i\<lparr>inQuotes := False\<rparr>) =
     \<lparr>result = [], current = js ''ab'', inQuotes = False\<rparr>" by code_simp
  from C7_quote[of ?i "js ''b''" "js ''x''" "js ''y''"] C7_quote[of ?o "js ''b''" "js ''x''" "js ''y''"]
    1 2 3 4 5 6 7
  show ?thesis by metis
qed

lemma parseCSVLine_unterminated:
  assumes "dquote \<notin> set s"
  shows "inQuotes (parseCSVLine_loop (dquote # s) \<lparr>result = [], current = [], inQuotes = False\<rparr>)"
    and "parseCSVLine (dquote # s) = [trim s]"
proof -
  have "parseCSVLine_loop (dquote # s) \<lparr>result = [], current = [], inQuotes = False\<rparr>
      = \<lparr>result = [], current = s, inQuotes = True\<rparr>"
    using assms loop_quoted_run[of s "\<lparr>result = [], current = [], inQuotes = True\<rparr>" "[]"]
    by (simp add: loop_quote_toggle)
  then show "inQuotes (parseCSVLine_loop (dquote # s) \<lparr>result = [], current = [], inQuotes = False\<rparr>)"
    and "parseCSVLine (dquote # s) = [trim s]"
    by (simp_all add: parseCSVLine_def)
qed

lemma parseCSVLine_trimmed: "\<forall>f\<in>set (parseCSVLine line). trim f = f"
  using loop_result_trimmed[of "\<lparr>result = [], current = [], inQuotes = False\<rparr>" line]
  by (simp add: parseCSVLine_def Let_def trim_idem)

text \<open>
  Claim C9. \<open>parseCSVLine\<close> is a total function with no error result: for every line it
  returns the fields pushed by the loop followed by the trimmed final accumulator,
  whatever the quote flag is at the end, so the result is never empty and every field
  is trimmed. A line that opens a quote and never closes it ends the loop inside quotes
  and still yields its text as the (trimmed) field.
\<close>

theorem C9_final_field:
  "parseCSVLine line =
     result (parseCSVLine_loop line \<lparr>result = [], current = [], inQuotes = False\<rparr>) @
     [trim (current (parseCSVLine_loop line \<lparr>result = [], current = [], inQuotes = False\<rparr>))] \<and>
   parseCSVLine line \<noteq> [] \<and>
   (\<forall>f\<in>set (parseCSVLine line). trim f = f) \<and>
   (dquote \<notin> set s \<longrightarrow>
      inQuotes (parseCSVLine_loop (dquote # s) \<lparr>result = [], current = [], inQuotes = False\<rparr>) \<and>
      parseCSVLine (dquote # s) = [trim s])"
  using parseCSVLine_trimmed[of line] parseCSVLine_unterminated[of s]
  by (simp add: parseCSVLine_def Let_def)

theorem C9_final_field_witness:
  "parseCSVLine (js ''x, '' @ [dquote] @ js ''a,b '') = [js ''x'', js ''a,b''] \<and>
   inQuotes (parseCSVLine_loop (js ''x, '' @ [dquote] @ js ''a,b '')
               \<lparr>result = [], current = [], inQuotes = False\<rparr>) \<and>
   trim (js ''x'') = js ''x'' \<and> trim (js ''a,b'') = js ''a,b'' \<and>
   parseCSVLine (dquote # js ''a,b '') = [js ''a,b'']"
proof -
  have 1: "parseCSVLine_loop (js ''x, '' @ [dquote] @ js ''a,b '') \<lparr>result = [], current = [], inQuotes = False\<rparr>
     = \<lparr>result = [js ''x''], current = js '' a,b '', inQuotes = True\<rparr>" by code_simp
  have 2: "trim (js '' a,b '') = js ''a,b''" "trim (js ''a,b '') = js ''a,b''" by code_simp+
  have 3: "dquote \<notin> set (js ''a,b '')" by code_simp
  note t = C9_final_field[of "js ''x, '' @ [dquote] @ js ''a,b ''" "js ''a,b ''"]
  from t 1 2 have a: "parseCSVLine (js ''x, '' @ [dquote] @ js ''a,b '') = [js ''x'', js ''a,b'']"
    by simp
  from t a have "\<forall>f\<in>set [js ''x'', js ''a,b'']. trim f = f" by metis
  then have b: "trim (js ''x'') = js ''x'' \<and> trim (js ''a,b'') = js ''a,b''" by simp
  from t 3 2 have c: "parseCSVLine (dquote # js ''a,b '') = [js ''a,b'']" by metis
  from 1 have d: "inQuotes (parseCSVLine_loop (js ''x, '' @ [dquote] @ js ''a,b '')
               \<lparr>result = [], current = [], inQuotes = False\<rparr>)" by simp
  from a b c d show ?thesis by blast
qed

section \<open>Properties of the records\<close>

lemma keys_simps:
  "keys [] = []" "keys (p # obj) = fst p # keys obj" "keys (obj @ obj') = keys obj @ keys obj'"
  by (simp_all add: keys_def)

lemma keys_insert_index: "set (keys (insert_index k v obj)) = insert k (set (keys obj))"
proof (induction obj)
  case Nil
  show ?case by (simp add: keys_simps)
next
  case (Cons p obj)
  obtain k' v' where p: "p = (k', v')" by (cases p)
  show ?case
  proof (cases "is_array_index k' \<and> digits_value k' < digits_value k")
    case True
    then have "insert_index k v (p # obj) = (k', v') # insert_index k v obj" by (simp add: p)
    with Cons show ?thesis by (auto simp: p keys_simps)
  next
    case False
    then have "insert_index k v (p # obj) = (k, v) # (k', v') # obj" by (auto simp: p)
    then show ?thesis by (simp add: p keys_simps)
  qed
qed

lemma distinct_insert_index:
  "k \<notin> set (keys obj) \<Longrightarrow> distinct (keys obj) \<Longrightarrow> distinct (keys (insert_index k v obj))"
proof (induction obj)
  case Nil then show ?case by (simp add: keys_def)
next
  case (Cons p obj)
  obtain k' v' where p: "p = (k', v')" by (cases p)
  from Cons have ih: "distinct (keys (insert_index k v obj))" by (simp add: keys_simps)
  have "k' \<notin> set (keys (insert_index k v obj))"
    using Cons.prems p by (auto simp: keys_insert_index keys_simps)
  with ih Cons.prems p show ?case by (auto simp: keys_simps)
qed

lemma own_prop_insert_index:
  "k \<notin> set (keys obj) \<Longrightarrow>
   own_prop (insert_index k v obj) k' = (if k' = k then Some v else own_prop obj k')"
  by (induction obj) (auto simp: keys_simps own_prop_def)

lemma keys_map_update:
  "keys (map (\<lambda>(k', v'). if k' = k then (k', v) else (k', v')) obj) = keys obj"
  by (induction obj) (auto simp: keys_def)

lemma own_prop_map_update_same:
  "k \<in> set (keys obj) \<Longrightarrow>
   own_prop (map (\<lambda>(k', v'). if k' = k then (k', v) else (k', v')) obj) k = Some v"
  by (induction obj) (auto simp: keys_simps own_prop_def)

lemma own_prop_map_update_other:
  "k' \<noteq> k \<Longrightarrow>
   own_prop (map (\<lambda>(k', v'). if k' = k then (k', v) else (k', v')) obj) k' = own_prop obj k'"
  by (induction obj) (auto simp: own_prop_def)

lemma own_prop_append:
  "k \<notin> set (keys obj) \<Longrightarrow>
   own_prop (obj @ [(k, v)]) k' = (if k' = k then Some v else own_prop obj k')"
  by (induction obj) (auto simp: keys_simps own_prop_def)

lemma keys_obj_set:
  "set (keys (obj_set obj k v)) =
     (if k = js ''__proto__'' then set (keys obj) else insert k (set (keys obj)))"
  by (auto simp: obj_set_def keys_insert_index keys_map_update keys_simps)

lemma distinct_obj_set: "distinct (keys obj) \<Longrightarrow> distinct (keys (obj_set obj k v))"
  by (auto simp: obj_set_def distinct_insert_index keys_map_update keys_simps)

lemma own_prop_obj_set:
  "k \<noteq> js ''__proto__'' \<Longrightarrow>
   own_prop (obj_set obj k v) k' = (if k' = k then Some v else own_prop obj k')"
  by (simp add: obj_set_def own_prop_insert_index own_prop_map_update_same
      own_prop_map_update_other own_prop_append)

lemma obj_set_proto: "obj_set obj (js ''__proto__'') v = obj"
  by (simp add: obj_set_def)

lemma obj_set_fresh:
  "k \<noteq> js ''__proto__'' \<Longrightarrow> \<not> is_array_index k \<Longrightarrow> k \<notin> set (keys obj) \<Longrightarrow>
   obj_set obj k v = obj @ [(k, v)]"
  by (simp add: obj_set_def)

lemma cell_eq: "cell values index = (if index < length values then values ! index else [])"
  by (simp add: cell_def)

lemma keys_forEach_header:
  "set (keys (forEach_header headers index values obj)) =
     set (keys obj) \<union> (set headers - {js ''__proto__''})"
  by (induction headers arbitrary: index obj) (auto simp: keys_obj_set)

lemma distinct_forEach_header:
  "distinct (keys obj) \<Longrightarrow> distinct (keys (forEach_header headers index values obj))"
  by (induction headers arbitrary: index obj) (auto simp: distinct_obj_set)

lemma own_prop_forEach_header_other:
  "h \<notin> set headers \<Longrightarrow> own_prop (forEach_header headers index values obj) h = own_prop obj h"
proof (induction headers arbitrary: index obj)
  case Nil then show ?case by simp
next
  case (Cons a headers)
  show ?case
  proof (cases "a = js ''__proto__''")
    case True
    with Cons show ?thesis by (simp add: obj_set_proto)
  next
    case False
    with Cons show ?thesis by (simp add: own_prop_obj_set)
  qed
qed

lemma own_prop_forEach_header:
  "distinct headers \<Longrightarrow> js ''__proto__'' \<notin> set headers \<Longrightarrow> i < length headers \<Longrightarrow>
   own_prop (forEach_header headers index values obj) (headers ! i) = Some (cell values (index + i))"
proof (induction headers arbitrary: index obj i)
  case Nil then show ?case by simp
next
  case (Cons a headers)
  show ?case
  proof (cases i)
    case 0
    from Cons.prems have "a \<noteq> js ''__proto__''" by auto
    with 0 Cons.prems show ?thesis
      by (simp add: own_prop_forEach_header_other own_prop_obj_set)
  next
    case (Suc j)
    with Cons.prems have "own_prop (forEach_header headers (Suc index) values
        (obj_set obj a (cell values index))) (headers ! j) = Some (cell values (Suc index + j))"
      by (intro Cons.IH) auto
    with Suc show ?thesis by simp
  qed
qed

lemma forEach_header_order:
  "distinct headers \<Longrightarrow> \<forall>h\<in>set headers. h \<noteq> js ''__proto__'' \<and> \<not> is_array_index h \<Longrightarrow>
   set headers \<inter> set (keys obj) = {} \<Longrightarrow>
   keys (forEach_header headers index values obj) = keys obj @ headers"
proof (induction headers arbitrary: index obj)
  case Nil then show ?case by simp
next
  case (Cons a headers)
  from Cons.prems have s: "obj_set obj a (cell values index) = obj @ [(a, cell values index)]"
    by (intro obj_set_fresh) auto
  have "keys (forEach_header headers (Suc index) values (obj @ [(a, cell values index)])) =
        keys (obj @ [(a, cell values index)]) @ headers"
    using Cons.prems by (intro Cons.IH) (auto simp: keys_simps)
  with s show ?case by (simp add: keys_simps)
qed

lemma parseCSV_records:
  assumes "2 \<le> length (nonEmptyLines csvText)"
  shows "length (parseCSV csvText) = length (nonEmptyLines csvText) - 1"
    and "r < length (nonEmptyLines csvText) - 1 \<Longrightarrow>
         parseCSV csvText ! r =
           forEach_header (parseCSVLine (nonEmptyLines csvText ! 0)) 0
             (parseCSVLine (nonEmptyLines csvText ! Suc r)) []"
  using assms by (simp_all add: parseCSV_def Let_def)

text \<open>
  Claim C1, amended. For a text with a header line and at least one data line among its
  non-empty lines, whose header columns are pairwise distinct and do not include
  \<open>__proto__\<close>: \<open>parseCSV\<close> returns one record per data line; the keys of each record are
  exactly the header columns; the value under the column at index \<open>i\<close> is the \<open>i\<close>-th field of
  the data line, or the empty string when the line has fewer fields; and when no header
  column is an array index the keys are enumerated in header order.
\<close>

theorem C1_records:
  assumes "lines = nonEmptyLines csvText" and "2 \<le> length lines"
    and "headers = parseCSVLine (lines ! 0)"
    and "distinct headers" and "js ''__proto__'' \<notin> set headers"
  shows "length (parseCSV csvText) = length lines - 1 \<and>
         (\<forall>r < length lines - 1.
            set (keys (parseCSV csvText ! r)) = set headers \<and>
            distinct (keys (parseCSV csvText ! r)) \<and>
            (\<forall>i < length headers.
               own_prop (parseCSV csvText ! r) (headers ! i) =
                 Some (if i < length (parseCSVLine (lines ! Suc r))
                       then parseCSVLine (lines ! Suc r) ! i else [])) \<and>
            ((\<forall>h\<in>set headers. \<not> is_array_index h) \<longrightarrow>
               keys (parseCSV csvText ! r) = headers))"
proof (intro conjI allI impI)
  show "length (parseCSV csvText) = length lines - 1"
    using assms(1,2) by (simp add: parseCSV_records)
next
  fix r assume r: "r < length lines - 1"
  let ?fields = "parseCSVLine (lines ! Suc r)"
  have rec: "parseCSV csvText ! r = forEach_header headers 0 ?fields []"
    using assms(1,2,3) r by (simp add: parseCSV_records)
  show "set (keys (parseCSV csvText ! r)) = set headers"
    using assms(5) by (simp add: rec keys_forEach_header keys_simps)
  show "distinct (keys (parseCSV csvText ! r))"
    by (simp add: rec distinct_forEach_header keys_simps)
  show "keys (parseCSV csvText ! r) = headers" if "\<forall>h\<in>set headers. \<not> is_array_index h"
    using forEach_header_order[of headers "[]" 0 ?fields] assms(4,5) that
    by (auto simp: rec keys_simps)
  fix i assume "i < length headers"
  then show "own_prop (parseCSV csvText ! r) (headers ! i) =
      Some (if i < length ?fields then ?fields ! i else [])"
    using own_prop_forEach_header[of headers i 0 ?fields "[]"] assms(4,5)
    by (simp add: rec cell_eq)
qed

theorem C1_records_witness:
  "nonEmptyLines (js ''k,v'' @ [newline] @ js ''a, 1'' @ [newline, newline] @ js ''b'') =
     [js ''k,v'', js ''a, 1'', js ''b''] \<and>
   length (parseCSV (js ''k,v'' @ [newline] @ js ''a, 1'' @ [newline, newline] @ js ''b'')) = 2 \<and>
   keys (parseCSV (js ''k,v'' @ [newline] @ js ''a, 1'' @ [newline, newline] @ js ''b'') ! 1) =
     [js ''k'', js ''v''] \<and>
   own_prop (parseCSV (js ''k,v'' @ [newline] @ js ''a, 1'' @ [newline, newline] @ js ''b'') ! 0)
     (js ''v'') = Some (js ''1'') \<and>
   own_prop (parseCSV (js ''k,v'' @ [newline] @ js ''a, 1'' @ [newline, newline] @ js ''b'') ! 1)
     (js ''v'') = Some []"
proof -
  let ?T = "js ''k,v'' @ [newline] @ js ''a, 1'' @ [newline, newline] @ js ''b''"
  let ?L = "[js ''k,v'', js ''a, 1'', js ''b'']"
  let ?H = "[js ''k'', js ''v'']"
  have l: "?L = nonEmptyLines ?T" by code_simp
  have n: "2 \<le> length ?L" by simp
  have h: "?H = parseCSVLine (?L ! 0)" by code_simp
  have d: "distinct ?H" by code_simp
  have p: "js ''__proto__'' \<notin> set ?H" by code_simp
  have a: "\<forall>h\<in>set ?H. \<not> is_array_index h" by code_simp
  have f1: "parseCSVLine (?L ! Suc 0) = [js ''a'', js ''1'']" by code_simp
  have f2: "parseCSVLine (?L ! Suc 1) = [js ''b'']" by code_simp
  note t = C1_records[OF l n h d p]
  have len: "length (parseCSV ?T) = 2"
    using conjunct1[OF t] by simp
  have i1: "(1::nat) < length ?H" by simp
  have "(0::nat) < length ?L - 1" by simp
  with conjunct2[OF t] have r0: "\<forall>i < length ?H. own_prop (parseCSV ?T ! 0) (?H ! i) =
        Some (if i < length (parseCSVLine (?L ! Suc 0)) then parseCSVLine (?L ! Suc 0) ! i else [])"
    by blast
  have "(1::nat) < length ?L - 1" by simp
  with conjunct2[OF t] have r1: "(\<forall>i < length ?H. own_prop (parseCSV ?T ! 1) (?H ! i) =
        Some (if i < length (parseCSVLine (?L ! Suc 1)) then parseCSVLine (?L ! Suc 1) ! i else [])) \<and>
      ((\<forall>h\<in>set ?H. \<not> is_array_index h) \<longrightarrow> keys (parseCSV ?T ! 1) = ?H)"
    by blast
  from r0 i1 have v0: "own_prop (parseCSV ?T ! 0) (?H ! 1) =
        Some (if 1 < length (parseCSVLine (?L ! Suc 0)) then parseCSVLine (?L ! Suc 0) ! 1 else [])"
    by blast
  from r1 i1 have v1: "own_prop (parseCSV ?T ! 1) (?H ! 1) =
        Some (if 1 < length (parseCSVLine (?L ! Suc 1)) then parseCSVLine (?L ! Suc 1) ! 1 else [])"
    by blast
  from r1 a have k1: "keys (parseCSV ?T ! 1) = ?H" by blast
  have v0': "own_prop (parseCSV ?T ! 0) (js ''v'') = Some (js ''1'')"
    using v0 unfolding f1 by simp
  have v1': "own_prop (parseCSV ?T ! 1) (js ''v'') = Some []"
    using v1 unfolding f2 by simp
  from l[symmetric] len k1 v0' v1' show ?thesis by blast
qed

text \<open>
  Claim C1 as stated fails for a repeated header column (one key, holding the last of
  the fields), for header columns that are array indices (enumerated first, in numeric
  order) and for the column \<open>__proto__\<close> (no key is created).
\<close>

theorem C1_counterexample:
  "nonEmptyLines (js ''a,a'' @ [newline] @ js ''1,2'') = [js ''a,a'', js ''1,2''] \<and>
   parseCSVLine (js ''a,a'') = [js ''a'', js ''a''] \<and>
   parseCSVLine (js ''1,2'') = [js ''1'', js ''2''] \<and>
   parseCSV (js ''a,a'' @ [newline] @ js ''1,2'') = [[(js ''a'', js ''2'')]] \<and>
   keys (parseCSV (js ''a,a'' @ [newline] @ js ''1,2'') ! 0) \<noteq> parseCSVLine (js ''a,a'') \<and>
   own_prop (parseCSV (js ''a,a'' @ [newline] @ js ''1,2'') ! 0) (parseCSVLine (js ''a,a'') ! 0) \<noteq>
     Some (parseCSVLine (js ''1,2'') ! 0) \<and>
   parseCSVLine (js ''2,1'') = [js ''2'', js ''1''] \<and>
   keys (parseCSV (js ''2,1'' @ [newline] @ js ''x,y'') ! 0) = [js ''1'', js ''2''] \<and>
   parseCSVLine (js ''__proto__,b'') = [js ''__proto__'', js ''b''] \<and>
   keys (parseCSV (js ''__proto__,b'' @ [newline] @ js ''x,y'') ! 0) = [js ''b'']"
  by code_simp

section \<open>Properties of the cache and of the retry loop\<close>

lemma LocalCache_get_fields:
  "requests (snd (LocalCache_get cfg key w)) = requests w"
  "events (snd (LocalCache_get cfg key w)) = events w"
  "now (snd (LocalCache_get cfg key w)) = now w"
  by (simp_all add: LocalCache_get_def Let_def split: option.splits)

lemma miss_no_hit:
  "cache_hit (fst (LocalCache_get cfg key w)) = None \<Longrightarrow> no_hit key (snd (LocalCache_get cfg key w))"
  by (auto simp: LocalCache_get_def cache_hit_def no_hit_def Let_def split: option.splits if_splits)

lemma no_hit_miss:
  "no_hit key w \<Longrightarrow> cache_hit (fst (LocalCache_get cfg key w)) = None"
  by (auto simp: LocalCache_get_def cache_hit_def no_hit_def Let_def split: option.splits)

lemma no_hit_fields:
  "no_hit key (w\<lparr>requests := r\<rparr>) = no_hit key w"
  "no_hit key (w\<lparr>now := t\<rparr>) = no_hit key w"
  "no_hit key (w\<lparr>events := es\<rparr>) = no_hit key w"
  by (simp_all add: no_hit_def)

lemma fetch_hit:
  assumes "cache_hit (fst (LocalCache_get cfg (endpoint @ js ''_'' @ stringify params) w)) = Some v"
  shows "CENIApiClient_fetch cfg stringify net endpoint params attempt w =
           (Inr v, snd (LocalCache_get cfg (endpoint @ js ''_'' @ stringify params) w))"
proof -
  obtain c w1 where g: "LocalCache_get cfg (endpoint @ js ''_'' @ stringify params) w = (c, w1)"
    by (cases "LocalCache_get cfg (endpoint @ js ''_'' @ stringify params) w")
  from assms g have c: "cache_hit c = Some v" by simp
  show ?thesis
    by (subst CENIApiClient_fetch.simps) (simp add: g c)
qed

lemma fetch_miss:
  assumes "cache_hit (fst (LocalCache_get cfg (endpoint @ js ''_'' @ stringify params) w)) = None"
  shows "CENIApiClient_fetch cfg stringify net endpoint params attempt w =
     (let w1 = snd (LocalCache_get cfg (endpoint @ js ''_'' @ stringify params) w);
          w2 = w1\<lparr>requests := Suc (requests w), events := events w @ [HttpRequest],
                  now := now w + fst (net (requests w))\<rparr>
      in case try_response (snd (net (requests w))) of
           Inr d \<Rightarrow> (Inr d, LocalCache_set (endpoint @ js ''_'' @ stringify params) d w2)
         | Inl e \<Rightarrow>
             if attempt < RETRY_ATTEMPTS cfg
             then CENIApiClient_fetch cfg stringify net endpoint params (attempt + 1)
                    (w2\<lparr>events := events w @ [HttpRequest, Timeout (RETRY_DELAY cfg * 2 ^ (attempt - 1))],
                        now := now w + fst (net (requests w)) + RETRY_DELAY cfg * 2 ^ (attempt - 1)\<rparr>)
             else (Inl e, w2))"
proof -
  obtain c w1 where g: "LocalCache_get cfg (endpoint @ js ''_'' @ stringify params) w = (c, w1)"
    by (cases "LocalCache_get cfg (endpoint @ js ''_'' @ stringify params) w")
  obtain l r where n: "net (requests w) = (l, r)" by (cases "net (requests w)")
  from g have f: "requests w1 = requests w" "events w1 = events w" "now w1 = now w"
    using LocalCache_get_fields[of cfg "endpoint @ js ''_'' @ stringify params" w] by simp_all
  from assms g have c: "cache_hit c = None" by simp
  show ?thesis
    by (subst CENIApiClient_fetch.simps) (simp add: g n f c Let_def split: sum.splits)
qed

lemma fetch_requests_mono:
  "requests w \<le> requests (snd (CENIApiClient_fetch cfg stringify net endpoint params attempt w))"
proof (induction "RETRY_ATTEMPTS cfg - attempt" arbitrary: attempt w)
  case 0
  let ?key = "endpoint @ js ''_'' @ stringify params"
  from 0 have last: "\<not> attempt < RETRY_ATTEMPTS cfg" by simp
  show ?case
  proof (cases "cache_hit (fst (LocalCache_get cfg ?key w))")
    case (Some v)
    then show ?thesis by (simp add: fetch_hit LocalCache_get_fields)
  next
    case None
    with last show ?thesis
      by (simp add: fetch_miss Let_def LocalCache_set_def split: sum.splits)
  qed
next
  case (Suc n)
  let ?key = "endpoint @ js ''_'' @ stringify params"
  from Suc have more: "attempt < RETRY_ATTEMPTS cfg" and n: "n = RETRY_ATTEMPTS cfg - (attempt + 1)"
    by simp_all
  show ?case
  proof (cases "cache_hit (fst (LocalCache_get cfg ?key w))")
    case (Some v)
    then show ?thesis by (simp add: fetch_hit LocalCache_get_fields)
  next
    case None
    show ?thesis
    proof (cases "try_response (snd (net (requests w)))")
      case (Inr d)
      with None show ?thesis by (simp add: fetch_miss Let_def LocalCache_set_def)
    next
      case (Inl e)
      have "Suc (requests w) \<le> requests (snd (CENIApiClient_fetch cfg stringify net endpoint params
              (attempt + 1)
              (snd (LocalCache_get cfg ?key w)
                 \<lparr>requests := Suc (requests w), events := events w @ [HttpRequest],
                  now := now w + fst (net (requests w))\<rparr>
                 \<lparr>events := events w @ [HttpRequest, Timeout (RETRY_DELAY cfg * 2 ^ (attempt - 1))],
                  now := now w + fst (net (requests w)) + RETRY_DELAY cfg * 2 ^ (attempt - 1)\<rparr>)))"
        using Suc.hyps(1)[OF n, of "snd (LocalCache_get cfg ?key w)
                 \<lparr>requests := Suc (requests w), events := events w @ [HttpRequest],
                  now := now w + fst (net (requests w))\<rparr>
                 \<lparr>events := events w @ [HttpRequest, Timeout (RETRY_DELAY cfg * 2 ^ (attempt - 1))],
                  now := now w + fst (net (requests w)) + RETRY_DELAY cfg * 2 ^ (attempt - 1)\<rparr>"]
        by simp
      with None Inl more show ?thesis by (simp add: fetch_miss Let_def)
    qed
  qed
qed

lemma fetch_miss_requests:
  assumes "cache_hit (fst (LocalCache_get cfg (endpoint @ js ''_'' @ stringify params) w)) = None"
  shows "requests w < requests (snd (CENIApiClient_fetch cfg stringify net endpoint params attempt w))"
proof (cases "try_response (snd (net (requests w)))")
  case (Inr d)
  with assms show ?thesis by (simp add: fetch_miss Let_def LocalCache_set_def)
next
  case (Inl e)
  let ?key = "endpoint @ js ''_'' @ stringify params"
  let ?w3 = "snd (LocalCache_get cfg ?key w)
                 \<lparr>requests := Suc (requests w), events := events w @ [HttpRequest],
                  now := now w + fst (net (requests w))\<rparr>
                 \<lparr>events := events w @ [HttpRequest, Timeout (RETRY_DELAY cfg * 2 ^ (attempt - 1))],
                  now := now w + fst (net (requests w)) + RETRY_DELAY cfg * 2 ^ (attempt - 1)\<rparr>"
  have "requests ?w3 \<le> requests (snd (CENIApiClient_fetch cfg stringify net endpoint params (attempt + 1) ?w3))"
    by (rule fetch_requests_mono)
  with assms Inl show ?thesis by (simp add: fetch_miss Let_def)
qed

lemma miss_after_retry:
  assumes "cache_hit (fst (LocalCache_get cfg key w)) = None"
  shows "cache_hit (fst (LocalCache_get cfg key
           (snd (LocalCache_get cfg key w)\<lparr>requests := r, events := es, now := t\<rparr>
              \<lparr>events := es', now := t'\<rparr>))) = None"
  using miss_no_hit[OF assms] by (intro no_hit_miss) (simp add: no_hit_def)

lemma retry_trace_Suc:
  "concat (map f [attempt..<attempt + Suc n]) = f attempt @ concat (map f [attempt + 1..<attempt + 1 + n])"
proof -
  have "[attempt..<attempt + Suc n] = attempt # [attempt + 1..<attempt + 1 + n]"
    by (simp add: upt_conv_Cons)
  then show ?thesis by (simp del: upt_Suc)
qed

lemma fetch_retry_fail:
  assumes "cache_hit (fst (LocalCache_get cfg (endpoint @ js ''_'' @ stringify params) w)) = None"
    and "RETRY_ATTEMPTS cfg - attempt = n"
    and "\<forall>k\<le>n. isl (try_response (snd (net (requests w + k))))"
  shows "fst (CENIApiClient_fetch cfg stringify net endpoint params attempt w) =
           Inl (projl (try_response (snd (net (requests w + n))))) \<and>
         requests (snd (CENIApiClient_fetch cfg stringify net endpoint params attempt w)) =
           requests w + n + 1 \<and>
         events (snd (CENIApiClient_fetch cfg stringify net endpoint params attempt w)) =
           events w @
           concat (map (\<lambda>a. [HttpRequest, Timeout (RETRY_DELAY cfg * 2 ^ (a - 1))])
                       [attempt..<attempt + n]) @ [HttpRequest] \<and>
         no_hit (endpoint @ js ''_'' @ stringify params)
           (snd (CENIApiClient_fetch cfg stringify net endpoint params attempt w))"
  using assms
proof (induction n arbitrary: attempt w)
  case 0
  let ?key = "endpoint @ js ''_'' @ stringify params"
  from "0.prems" have last: "\<not> attempt < RETRY_ATTEMPTS cfg" by simp
  from "0.prems" obtain e where e: "try_response (snd (net (requests w))) = Inl e"
    by (cases "try_response (snd (net (requests w)))") auto
  have f: "CENIApiClient_fetch cfg stringify net endpoint params attempt w =
      (Inl e, snd (LocalCache_get cfg ?key w)
                 \<lparr>requests := Suc (requests w), events := events w @ [HttpRequest],
                  now := now w + fst (net (requests w))\<rparr>)"
    using "0.prems"(1) last e by (simp add: fetch_miss Let_def)
  show ?case using miss_no_hit[OF "0.prems"(1)] by (simp add: f e no_hit_def)
next
  case (Suc n)
  let ?key = "endpoint @ js ''_'' @ stringify params"
  let ?d = "RETRY_DELAY cfg * 2 ^ (attempt - 1)"
  let ?w3 = "snd (LocalCache_get cfg ?key w)
                 \<lparr>requests := Suc (requests w), events := events w @ [HttpRequest],
                  now := now w + fst (net (requests w))\<rparr>
                 \<lparr>events := events w @ [HttpRequest, Timeout ?d],
                  now := now w + fst (net (requests w)) + ?d\<rparr>"
  from Suc.prems have more: "attempt < RETRY_ATTEMPTS cfg"
    and n: "RETRY_ATTEMPTS cfg - (attempt + 1) = n" by simp_all
  from Suc.prems obtain e where e: "try_response (snd (net (requests w))) = Inl e"
    by (cases "try_response (snd (net (requests w)))") force+
  have f: "CENIApiClient_fetch cfg stringify net endpoint params attempt w =
      CENIApiClient_fetch cfg stringify net endpoint params (attempt + 1) ?w3"
    using Suc.prems(1) more e by (simp add: fetch_miss Let_def)
  have m: "cache_hit (fst (LocalCache_get cfg ?key ?w3)) = None"
    by (rule miss_after_retry[OF Suc.prems(1)])
  have r: "requests ?w3 = Suc (requests w)" by simp
  have fails: "\<forall>k\<le>n. isl (try_response (snd (net (requests ?w3 + k))))"
  proof (intro allI impI)
    fix k assume "k \<le> n"
    then have "Suc k \<le> Suc n" by simp
    with Suc.prems(3) have "isl (try_response (snd (net (requests w + Suc k))))" by blast
    then show "isl (try_response (snd (net (requests ?w3 + k))))" by (simp add: r)
  qed
  note ih = Suc.IH[OF m n fails]
  have ev: "events ?w3 = events w @ [HttpRequest, Timeout ?d]" by simp
  show ?case
    unfolding f retry_trace_Suc using ih unfolding r ev by simp
qed

lemma fetch_retry_success:
  assumes "cache_hit (fst (LocalCache_get cfg (endpoint @ js ''_'' @ stringify params) w)) = None"
    and "j = 0 \<or> attempt + j \<le> RETRY_ATTEMPTS cfg"
    and "\<forall>k<j. isl (try_response (snd (net (requests w + k))))"
    and "try_response (snd (net (requests w + j))) = Inr v"
  shows "fst (CENIApiClient_fetch cfg stringify net endpoint params attempt w) = Inr v \<and>
         requests (snd (CENIApiClient_fetch cfg stringify net endpoint params attempt w)) =
           requests w + j + 1 \<and>
         events (snd (CENIApiClient_fetch cfg stringify net endpoint params attempt w)) =
           events w @
           concat (map (\<lambda>a. [HttpRequest, Timeout (RETRY_DELAY cfg * 2 ^ (a - 1))])
                       [attempt..<attempt + j]) @ [HttpRequest] \<and>
         localStorage (snd (CENIApiClient_fetch cfg stringify net endpoint params attempt w))
             (js ''ceni_'' @ endpoint @ js ''_'' @ stringify params) =
           Some \<lparr>timestamp = now (snd (CENIApiClient_fetch cfg stringify net endpoint params attempt w)),
                 data = v\<rparr>"
  using assms
proof (induction j arbitrary: attempt w)
  case 0
  let ?key = "endpoint @ js ''_'' @ stringify params"
  from "0.prems" have v: "try_response (snd (net (requests w))) = Inr v" by simp
  have f: "CENIApiClient_fetch cfg stringify net endpoint params attempt w =
      (Inr v, LocalCache_set ?key v (snd (LocalCache_get cfg ?key w)
                 \<lparr>requests := Suc (requests w), events := events w @ [HttpRequest],
                  now := now w + fst (net (requests w))\<rparr>))"
    using "0.prems"(1) v by (simp add: fetch_miss Let_def)
  show ?case by (simp add: f LocalCache_set_def)
next
  case (Suc j)
  let ?key = "endpoint @ js ''_'' @ stringify params"
  let ?d = "RETRY_DELAY cfg * 2 ^ (attempt - 1)"
  let ?w3 = "snd (LocalCache_get cfg ?key w)
                 \<lparr>requests := Suc (requests w), events := events w @ [HttpRequest],
                  now := now w + fst (net (requests w))\<rparr>
                 \<lparr>events := events w @ [HttpRequest, Timeout ?d],
                  now := now w + fst (net (requests w)) + ?d\<rparr>"
  from Suc.prems have more: "attempt < RETRY_ATTEMPTS cfg"
    and n: "j = 0 \<or> (attempt + 1) + j \<le> RETRY_ATTEMPTS cfg" by simp_all
  from Suc.prems(3) have "isl (try_response (snd (net (requests w + 0))))" by blast
  then obtain e where e: "try_response (snd (net (requests w))) = Inl e"
    by (cases "try_response (snd (net (requests w)))") auto
  have f: "CENIApiClient_fetch cfg stringify net endpoint params attempt w =
      CENIApiClient_fetch cfg stringify net endpoint params (attempt + 1) ?w3"
    using Suc.prems(1) more e by (simp add: fetch_miss Let_def)
  have m: "cache_hit (fst (LocalCache_get cfg ?key ?w3)) = None"
    by (rule miss_after_retry[OF Suc.prems(1)])
  have r: "requests ?w3 = Suc (requests w)" by simp
  have fails: "\<forall>k<j. isl (try_response (snd (net (requests ?w3 + k))))"
  proof (intro allI impI)
    fix k assume "k < j"
    then have "Suc k < Suc j" by simp
    with Suc.prems(3) have "isl (try_response (snd (net (requests w + Suc k))))" by blast
    then show "isl (try_response (snd (net (requests ?w3 + k))))" by (simp add: r)
  qed
  have ok: "try_response (snd (net (requests ?w3 + j))) = Inr v"
    using Suc.prems(4) by (simp add: r)
  note ih = Suc.IH[OF m n fails ok]
  have ev: "events ?w3 = events w @ [HttpRequest, Timeout ?d]" by simp
  show ?case
    unfolding f retry_trace_Suc using ih unfolding r ev by simp
qed

section \<open>Claims about the cached clients\<close>

text \<open>
  Claim C3. With a maximum of 3 attempts and base delay \<open>d\<close>, a call of the JSON client
  that misses the cache, whose requests fail on attempts 1 and 2 and succeed on attempt 3
  with payload \<open>v\<close>, resolves with \<open>v\<close>; what it does is: request, wait \<open>d\<close>, request, wait
  \<open>2d\<close>, request; and \<open>d\<close>, \<open>2d\<close> are the values of \<open>RETRY_DELAY * 2^(attempt - 1)\<close> at
  attempts 1 and 2, the counter starting at 1.
\<close>

theorem C3_retry_backoff:
  assumes "RETRY_ATTEMPTS cfg = 3" and "RETRY_DELAY cfg = d"
    and "cache_hit (fst (LocalCache_get cfg (endpoint @ js ''_'' @ stringify params) w)) = None"
    and "isl (try_response (snd (net (requests w))))"
    and "isl (try_response (snd (net (requests w + 1))))"
    and "try_response (snd (net (requests w + 2))) = Inr v"
  shows "fst (CENIApiClient_fetch cfg stringify net endpoint params 1 w) = Inr v \<and>
         events (snd (CENIApiClient_fetch cfg stringify net endpoint params 1 w)) =
           events w @ [HttpRequest, Timeout d, HttpRequest, Timeout (2 * d), HttpRequest] \<and>
         [d, 2 * d] = map (\<lambda>attempt. RETRY_DELAY cfg * 2 ^ (attempt - 1)) [1, 2] \<and>
         requests (snd (CENIApiClient_fetch cfg stringify net endpoint params 1 w)) = requests w + 3"
proof -
  have fails: "\<forall>k<2. isl (try_response (snd (net (requests w + k))))"
  proof (intro allI impI)
    fix k :: nat assume "k < 2"
    then have "k = 0 \<or> k = 1" by auto
    with assms(4,5) show "isl (try_response (snd (net (requests w + k))))" by auto
  qed
  have budget: "(2::nat) = 0 \<or> 1 + 2 \<le> RETRY_ATTEMPTS cfg" using assms(1) by simp
  have upt: "[1..<1 + 2] = [1::nat, 2]" by (simp add: upt_conv_Cons)
  note s = fetch_retry_success[where cfg=cfg and endpoint=endpoint and stringify=stringify
      and params=params and w=w and j=2 and attempt=1 and net=net and v=v,
      OF assms(3) budget fails assms(6)]
  show ?thesis using s unfolding upt by (simp add: assms(2))
qed

theorem C3_retry_backoff_witness:
  "fst (CENIApiClient_fetch API_CONFIG no_params net_recovers (js ''eventos'') () 1 empty_world) =
     Inr (JObj [(js ''data'', JArr [])]) \<and>
   events (snd (CENIApiClient_fetch API_CONFIG no_params net_recovers (js ''eventos'') () 1 empty_world)) =
     [HttpRequest, Timeout 1000, HttpRequest, Timeout 2000, HttpRequest]"
proof -
  have 1: "RETRY_ATTEMPTS API_CONFIG = 3" "RETRY_DELAY API_CONFIG = 1000"
    by (simp_all add: API_CONFIG_def)
  have 2: "cache_hit (fst (LocalCache_get API_CONFIG (js ''eventos'' @ js ''_'' @ no_params ())
             (empty_world :: json world))) = None"
    by (simp add: LocalCache_get_def empty_world_def cache_hit_def)
  have 3: "isl (try_response (snd (net_recovers (requests (empty_world :: json world)))))"
    "isl (try_response (snd (net_recovers (requests (empty_world :: json world) + 1))))"
    by (simp_all add: net_recovers_def empty_world_def try_response_def)
  have 4: "try_response (snd (net_recovers (requests (empty_world :: json world) + 2))) =
      Inr (JObj [(js ''data'', JArr [])])"
    by (simp add: net_recovers_def empty_world_def try_response_def js_def)
  from C3_retry_backoff[where cfg=API_CONFIG and endpoint="js ''eventos''" and stringify=no_params
      and params="()" and w=empty_world and net=net_recovers, OF 1 2 3 4]
  show ?thesis by (simp add: empty_world_def)
qed

text \<open>
  Claim C4, amended. A call of the JSON client that misses the cache and whose every
  attempt up to the configured maximum fails rejects with the error of the final attempt,
  after exactly that many requests, and leaves nothing in the storage that a later call
  would take as a hit. A failure is what the \<open>try\<close> block throws on; a response whose
  status is not a success is one, and so is a parsed payload whose \<open>error\<close> property is
  truthy.
\<close>

theorem C4_retries_exhausted:
  assumes "cache_hit (fst (LocalCache_get cfg (endpoint @ js ''_'' @ stringify params) w)) = None"
    and "1 \<le> RETRY_ATTEMPTS cfg"
    and "\<forall>k<RETRY_ATTEMPTS cfg. isl (try_response (snd (net (requests w + k))))"
  shows "fst (CENIApiClient_fetch cfg stringify net endpoint params 1 w) =
           Inl (projl (try_response (snd (net (requests w + (RETRY_ATTEMPTS cfg - 1)))))) \<and>
         requests (snd (CENIApiClient_fetch cfg stringify net endpoint params 1 w)) =
           requests w + RETRY_ATTEMPTS cfg \<and>
         no_hit (endpoint @ js ''_'' @ stringify params)
           (snd (CENIApiClient_fetch cfg stringify net endpoint params 1 w)) \<and>
         try_response (Response False status statusText body) = Inl (HttpError status statusText) \<and>
         (map_of props (js ''error'') = Some e \<and> truthy e \<longrightarrow>
            try_response (Response True status statusText (Some (JObj props))) = Inl (PayloadError e))"
proof -
  have fails: "\<forall>k\<le>RETRY_ATTEMPTS cfg - 1. isl (try_response (snd (net (requests w + k))))"
    using assms(2,3) by auto
  note f = fetch_retry_fail[where cfg=cfg and endpoint=endpoint and stringify=stringify
      and params=params and w=w and attempt=1 and net=net, OF assms(1) refl fails]
  have "try_response (Response False status statusText body) = Inl (HttpError status statusText)"
    by (simp add: try_response_def)
  moreover have "map_of props (js ''error'') = Some e \<and> truthy e \<longrightarrow>
      try_response (Response True status statusText (Some (JObj props))) = Inl (PayloadError e)"
    by (simp add: try_response_def)
  ultimately show ?thesis using f assms(2) by simp
qed

theorem C4_retries_exhausted_witness:
  "fst (CENIApiClient_fetch API_CONFIG no_params net_payload_error (js ''eventos'') () 1 empty_world) =
     Inl (PayloadError (JStr (js ''sem dados''))) \<and>
   requests (snd (CENIApiClient_fetch API_CONFIG no_params net_payload_error (js ''eventos'') () 1
     empty_world)) = 3 \<and>
   try_response (Response True 200 (js ''OK'') (Some (JObj [(js ''error'', JStr (js ''sem dados''))]))) =
     Inl (PayloadError (JStr (js ''sem dados'')))"
proof -
  have 1: "cache_hit (fst (LocalCache_get API_CONFIG (js ''eventos'' @ js ''_'' @ no_params ())
             (empty_world :: json world))) = None"
    by (simp add: LocalCache_get_def empty_world_def cache_hit_def)
  have 2: "1 \<le> RETRY_ATTEMPTS API_CONFIG" by (simp add: API_CONFIG_def)
  have t: "try_response (snd (net_payload_error k)) = Inl (PayloadError (JStr (js ''sem dados'')))" for k
    by (simp add: net_payload_error_def try_response_def js_def)
  have 3: "\<forall>k<RETRY_ATTEMPTS API_CONFIG.
      isl (try_response (snd (net_payload_error (requests (empty_world :: json world) + k))))"
    by (simp add: t)
  have 4: "map_of [(js ''error'', JStr (js ''sem dados''))] (js ''error'') = Some (JStr (js ''sem dados'')) \<and>
      truthy (JStr (js ''sem dados''))"
    by (simp add: js_def)
  from C4_retries_exhausted[where cfg=API_CONFIG and endpoint="js ''eventos''" and stringify=no_params
      and params="()" and w=empty_world and net=net_payload_error and status=200
      and statusText="js ''OK''" and props="[(js ''error'', JStr (js ''sem dados''))]"
      and e="JStr (js ''sem dados'')", OF 1 2 3] 4
  show ?thesis by (simp add: t empty_world_def API_CONFIG_def)
qed

text \<open>
  Claim C4 as stated fails for a payload that carries the \<open>error\<close> property with a falsy
  value: with \<open>{"error": ""}\<close> as every answer, the first attempt resolves with the payload
  after one request.
\<close>

theorem C4_counterexample:
  "cache_hit (fst (LocalCache_get API_CONFIG (js ''eventos'' @ js ''_'' @ no_params ())
     (empty_world :: json world))) = None \<and>
   snd (net_empty_error 0) = Response True 200 (js ''OK'') (Some (JObj [(js ''error'', JStr [])])) \<and>
   data_error (JObj [(js ''error'', JStr [])]) = Inr (Some (JStr [])) \<and>
   fst (CENIApiClient_fetch API_CONFIG no_params net_empty_error (js ''eventos'') () 1 empty_world) =
     Inr (JObj [(js ''error'', JStr [])]) \<and>
   requests (snd (CENIApiClient_fetch API_CONFIG no_params net_empty_error (js ''eventos'') () 1
     empty_world)) = 1 \<and>
   events (snd (CENIApiClient_fetch API_CONFIG no_params net_empty_error (js ''eventos'') () 1
     empty_world)) = [HttpRequest]"
  by code_simp

text \<open>
  Claim C10, amended. For an item in the storage, \<open>LocalCache.get\<close> with its duration (test
  \<open>age < duration\<close>) removes the item and returns null when the age equals that duration,
  and \<open>CacheManager.get\<close> with its duration (test \<open>age > duration\<close>) returns the data and
  keeps the item when the age equals that duration. When the two durations are the same
  value, the two reads return the same value and leave the same storage at every other
  age. Whatever the two durations are, both reads return the data at an age below both
  and both return null and remove the item at an age above both.
\<close>

theorem C10_expiry_boundary:
  assumes "localStorage w (js ''ceni_'' @ key) = Some item"
  shows "(now w - timestamp item = CACHE_DURATION cfg \<longrightarrow>
            LocalCache_get cfg key w =
              (None, w\<lparr>localStorage := (localStorage w)(js ''ceni_'' @ key := None)\<rparr>)) \<and>
         (now w - timestamp item = duration \<longrightarrow>
            CacheManager_get duration key w = (Some (data item), w)) \<and>
         (CACHE_DURATION cfg = duration \<and> now w - timestamp item \<noteq> duration \<longrightarrow>
            LocalCache_get cfg key w = CacheManager_get duration key w) \<and>
         (now w - timestamp item < CACHE_DURATION cfg \<and> now w - timestamp item < duration \<longrightarrow>
            LocalCache_get cfg key w = (Some (data item), w) \<and>
            CacheManager_get duration key w = (Some (data item), w)) \<and>
         (now w - timestamp item > CACHE_DURATION cfg \<and> now w - timestamp item > duration \<longrightarrow>
            LocalCache_get cfg key w =
              (None, w\<lparr>localStorage := (localStorage w)(js ''ceni_'' @ key := None)\<rparr>) \<and>
            CacheManager_get duration key w =
              (None, w\<lparr>localStorage := (localStorage w)(js ''ceni_'' @ key := None)\<rparr>))"
  using assms by (simp add: LocalCache_get_def CacheManager_get_def Let_def)

theorem C10_expiry_boundary_witness:
  "fst (LocalCache_get API_CONFIG (js ''k'')
         ((LocalCache_set (js ''k'') (JStr (js ''v'')) empty_world)\<lparr>now := 1800000\<rparr>)) = None \<and>
   fst (CacheManager_get CONFIG_CACHE_DURATION (js ''k'')
         ((LocalCache_set (js ''k'') (JStr (js ''v'')) empty_world)\<lparr>now := 300000\<rparr>)) =
     Some (JStr (js ''v'')) \<and>
   LocalCache_get API_CONFIG (js ''k'')
         ((LocalCache_set (js ''k'') (JStr (js ''v'')) empty_world)\<lparr>now := 1799999\<rparr>) =
     CacheManager_get (CACHE_DURATION API_CONFIG) (js ''k'')
         ((LocalCache_set (js ''k'') (JStr (js ''v'')) empty_world)\<lparr>now := 1799999\<rparr>) \<and>
   fst (LocalCache_get API_CONFIG (js ''k'')
         ((LocalCache_set (js ''k'') (JStr (js ''v'')) empty_world)\<lparr>now := 1000\<rparr>)) =
     Some (JStr (js ''v'')) \<and>
   fst (CacheManager_get CONFIG_CACHE_DURATION (js ''k'')
         ((LocalCache_set (js ''k'') (JStr (js ''v'')) empty_world)\<lparr>now := 1000\<rparr>)) =
     Some (JStr (js ''v'')) \<and>
   fst (LocalCache_get API_CONFIG (js ''k'')
         ((LocalCache_set (js ''k'') (JStr (js ''v'')) empty_world)\<lparr>now := 1800001\<rparr>)) = None \<and>
   fst (CacheManager_get CONFIG_CACHE_DURATION (js ''k'')
         ((LocalCache_set (js ''k'') (JStr (js ''v'')) empty_world)\<lparr>now := 1800001\<rparr>)) = None"
proof -
  let ?item = "\<lparr>timestamp = 0, data = JStr (js ''v'')\<rparr>"
  let ?w = "\<lambda>t. (LocalCache_set (js ''k'') (JStr (js ''v'')) empty_world)\<lparr>now := t\<rparr>"
  let ?gone = "\<lambda>t. (?w t)\<lparr>localStorage := (localStorage (?w t))(js ''ceni_'' @ js ''k'' := None)\<rparr>"
  have s: "localStorage (?w t) (js ''ceni_'' @ js ''k'') = Some ?item" for t
    by (simp add: LocalCache_set_def empty_world_def)
  have c: "CACHE_DURATION API_CONFIG = 1800000" by (simp add: API_CONFIG_def)
  have d: "CONFIG_CACHE_DURATION = 300000" by (simp add: CONFIG_CACHE_DURATION_def)
  have a1: "now (?w 1800000) - timestamp ?item = CACHE_DURATION API_CONFIG" by (simp add: c)
  have a2: "now (?w 300000) - timestamp ?item = CONFIG_CACHE_DURATION" by (simp add: d)
  have a3: "CACHE_DURATION API_CONFIG = CACHE_DURATION API_CONFIG \<and>
      now (?w 1799999) - timestamp ?item \<noteq> CACHE_DURATION API_CONFIG" by (simp add: c)
  have a4: "now (?w 1000) - timestamp ?item < CACHE_DURATION API_CONFIG \<and>
      now (?w 1000) - timestamp ?item < CONFIG_CACHE_DURATION" by (simp add: c d)
  have a5: "now (?w 1800001) - timestamp ?item > CACHE_DURATION API_CONFIG \<and>
      now (?w 1800001) - timestamp ?item > CONFIG_CACHE_DURATION" by (simp add: c d)
  note t1 = C10_expiry_boundary[OF s[of 1800000], of API_CONFIG CONFIG_CACHE_DURATION]
  note t2 = C10_expiry_boundary[OF s[of 300000], of API_CONFIG CONFIG_CACHE_DURATION]
  note t3 = C10_expiry_boundary[OF s[of 1799999], of API_CONFIG "CACHE_DURATION API_CONFIG"]
  note t4 = C10_expiry_boundary[OF s[of 1000], of API_CONFIG CONFIG_CACHE_DURATION]
  note t5 = C10_expiry_boundary[OF s[of 1800001], of API_CONFIG CONFIG_CACHE_DURATION]
  from t1 a1 have 1: "LocalCache_get API_CONFIG (js ''k'') (?w 1800000) = (None, ?gone 1800000)"
    by blast
  from t2 a2 have 2: "CacheManager_get CONFIG_CACHE_DURATION (js ''k'') (?w 300000) =
      (Some (data ?item), ?w 300000)" by blast
  from t3 a3 have 3: "LocalCache_get API_CONFIG (js ''k'') (?w 1799999) =
      CacheManager_get (CACHE_DURATION API_CONFIG) (js ''k'') (?w 1799999)" by blast
  from t4 a4 have 4: "LocalCache_get API_CONFIG (js ''k'') (?w 1000) = (Some (data ?item), ?w 1000)"
    "CacheManager_get CONFIG_CACHE_DURATION (js ''k'') (?w 1000) = (Some (data ?item), ?w 1000)"
    by blast+
  from t5 a5 have 5: "LocalCache_get API_CONFIG (js ''k'') (?w 1800001) = (None, ?gone 1800001)"
    "CacheManager_get CONFIG_CACHE_DURATION (js ''k'') (?w 1800001) = (None, ?gone 1800001)"
    by blast+
  have p: "fst (LocalCache_get API_CONFIG (js ''k'') (?w 1800000)) = None"
    "fst (CacheManager_get CONFIG_CACHE_DURATION (js ''k'') (?w 300000)) = Some (JStr (js ''v''))"
    "fst (LocalCache_get API_CONFIG (js ''k'') (?w 1000)) = Some (JStr (js ''v''))"
    "fst (CacheManager_get CONFIG_CACHE_DURATION (js ''k'') (?w 1000)) = Some (JStr (js ''v''))"
    "fst (LocalCache_get API_CONFIG (js ''k'') (?w 1800001)) = None"
    "fst (CacheManager_get CONFIG_CACHE_DURATION (js ''k'') (?w 1800001)) = None"
    unfolding 1 2 4 5 by simp_all
  from p 3 show ?thesis by blast
qed

text \<open>
  Claim C10 as stated fails for the two reads as configured (30 minutes for
  \<open>LocalCache.get\<close>, 5 minutes for \<open>CacheManager.get\<close>): they agree at both expiration
  instants (null at 1800000, the data at 300000) and disagree in between, at age 600000.
\<close>

theorem C10_counterexample:
  "CACHE_DURATION API_CONFIG = 1800000 \<and> CONFIG_CACHE_DURATION = 300000 \<and>
   fst (LocalCache_get API_CONFIG (js ''k'')
         ((LocalCache_set (js ''k'') (JStr (js ''v'')) empty_world)\<lparr>now := 1800000\<rparr>)) = None \<and>
   fst (CacheManager_get CONFIG_CACHE_DURATION (js ''k'')
         ((LocalCache_set (js ''k'') (JStr (js ''v'')) empty_world)\<lparr>now := 1800000\<rparr>)) = None \<and>
   fst (LocalCache_get API_CONFIG (js ''k'')
         ((LocalCache_set (js ''k'') (JStr (js ''v'')) empty_world)\<lparr>now := 300000\<rparr>)) =
     Some (JStr (js ''v'')) \<and>
   fst (CacheManager_get CONFIG_CACHE_DURATION (js ''k'')
         ((LocalCache_set (js ''k'') (JStr (js ''v'')) empty_world)\<lparr>now := 300000\<rparr>)) =
     Some (JStr (js ''v'')) \<and>
   fst (LocalCache_get API_CONFIG (js ''k'')
         ((LocalCache_set (js ''k'') (JStr (js ''v'')) empty_world)\<lparr>now := 600000\<rparr>)) =
     Some (JStr (js ''v'')) \<and>
   fst (CacheManager_get CONFIG_CACHE_DURATION (js ''k'')
         ((LocalCache_set (js ''k'') (JStr (js ''v'')) empty_world)\<lparr>now := 600000\<rparr>)) = None"
  by code_simp

text \<open>
  Claim C2, amended. Let the storage hold under the cache key the item that \<open>LocalCache.set\<close>
  wrote at time \<open>T\<close> with value \<open>v\<close>. Read at \<open>T + (CACHE_DURATION - 1)\<close>, \<open>LocalCache.get\<close>
  returns \<open>v\<close> and changes nothing, and when \<open>v\<close> is truthy (every object and array is)
  \<open>fetch\<close> resolves with \<open>v\<close> and leaves the world as it was: no request, no delay. Read at
  \<open>T + CACHE_DURATION + 1\<close>, \<open>LocalCache.get\<close> returns null and removes the item, and
  \<open>fetch\<close> does what it does on the storage without the item, issuing at least one request.
\<close>

theorem C2_cache_expiry:
  assumes "localStorage w (js ''ceni_'' @ endpoint @ js ''_'' @ stringify params) =
           localStorage (LocalCache_set (endpoint @ js ''_'' @ stringify params) v wr)
             (js ''ceni_'' @ endpoint @ js ''_'' @ stringify params)"
  shows "(now w = now wr + (CACHE_DURATION cfg - 1) \<longrightarrow>
            LocalCache_get cfg (endpoint @ js ''_'' @ stringify params) w = (Some v, w) \<and>
            (truthy v \<longrightarrow>
               CENIApiClient_fetch cfg stringify net endpoint params attempt w = (Inr v, w))) \<and>
         (now w = now wr + CACHE_DURATION cfg + 1 \<longrightarrow>
            LocalCache_get cfg (endpoint @ js ''_'' @ stringify params) w =
              (None, w\<lparr>localStorage :=
                 (localStorage w)(js ''ceni_'' @ endpoint @ js ''_'' @ stringify params := None)\<rparr>) \<and>
            CENIApiClient_fetch cfg stringify net endpoint params attempt w =
              CENIApiClient_fetch cfg stringify net endpoint params attempt
                (w\<lparr>localStorage :=
                   (localStorage w)(js ''ceni_'' @ endpoint @ js ''_'' @ stringify params := None)\<rparr>) \<and>
            requests w < requests (snd (CENIApiClient_fetch cfg stringify net endpoint params attempt w)))"
proof -
  let ?key = "endpoint @ js ''_'' @ stringify params"
  let ?gone = "w\<lparr>localStorage := (localStorage w)(js ''ceni_'' @ ?key := None)\<rparr>"
  from assms have item: "localStorage w (js ''ceni_'' @ ?key) = Some \<lparr>timestamp = now wr, data = v\<rparr>"
    by (simp add: LocalCache_set_def)
  have fresh: "LocalCache_get cfg ?key w = (Some v, w)" if "now w = now wr + (CACHE_DURATION cfg - 1)"
    using item that by (simp add: LocalCache_get_def Let_def)
  have hit: "CENIApiClient_fetch cfg stringify net endpoint params attempt w = (Inr v, w)"
    if "now w = now wr + (CACHE_DURATION cfg - 1)" and "truthy v"
    using fetch_hit[where cfg=cfg and endpoint=endpoint and stringify=stringify and params=params
        and w=w and v=v and net=net and attempt=attempt] fresh[OF that(1)] that(2)
    by (simp add: cache_hit_def)
  have expired: "LocalCache_get cfg ?key w = (None, ?gone)" if "now w = now wr + CACHE_DURATION cfg + 1"
    using item that by (simp add: LocalCache_get_def Let_def)
  have gone: "LocalCache_get cfg ?key ?gone = (None, ?gone)"
    by (simp add: LocalCache_get_def)
  have same: "CENIApiClient_fetch cfg stringify net endpoint params attempt w =
      CENIApiClient_fetch cfg stringify net endpoint params attempt ?gone"
    if "now w = now wr + CACHE_DURATION cfg + 1"
    using CENIApiClient_fetch.simps[of cfg stringify net endpoint params attempt w]
      CENIApiClient_fetch.simps[of cfg stringify net endpoint params attempt ?gone]
    by (simp add: expired[OF that] gone)
  have req: "requests w < requests (snd (CENIApiClient_fetch cfg stringify net endpoint params attempt w))"
    if "now w = now wr + CACHE_DURATION cfg + 1"
    by (rule fetch_miss_requests) (simp add: expired[OF that] cache_hit_def)
  from fresh hit expired same req show ?thesis by blast
qed

theorem C2_cache_expiry_witness:
  "CENIApiClient_fetch API_CONFIG no_params net_down (js ''eventos'') () 1
     ((LocalCache_set (js ''eventos'' @ js ''_'' @ no_params ()) (JObj [(js ''data'', JArr [])])
         empty_world)\<lparr>now := 1799999\<rparr>) =
     (Inr (JObj [(js ''data'', JArr [])]),
      (LocalCache_set (js ''eventos'' @ js ''_'' @ no_params ()) (JObj [(js ''data'', JArr [])])
         empty_world)\<lparr>now := 1799999\<rparr>) \<and>
   fst (LocalCache_get API_CONFIG (js ''eventos'' @ js ''_'' @ no_params ())
     ((LocalCache_set (js ''eventos'' @ js ''_'' @ no_params ()) (JObj [(js ''data'', JArr [])])
         empty_world)\<lparr>now := 1800001\<rparr>)) = None \<and>
   0 < requests (snd (CENIApiClient_fetch API_CONFIG no_params net_down (js ''eventos'') () 1
     ((LocalCache_set (js ''eventos'' @ js ''_'' @ no_params ()) (JObj [(js ''data'', JArr [])])
         empty_world)\<lparr>now := 1800001\<rparr>)))"
proof -
  let ?key = "js ''eventos'' @ js ''_'' @ no_params ()"
  let ?v = "JObj [(js ''data'', JArr [])]"
  let ?w = "\<lambda>t. (LocalCache_set ?key ?v empty_world)\<lparr>now := t\<rparr>"
  have s: "localStorage (?w t) (js ''ceni_'' @ ?key) =
      localStorage (LocalCache_set ?key ?v empty_world) (js ''ceni_'' @ ?key)" for t
    by simp
  have n: "now (?w 1799999) = now (empty_world :: json world) + (CACHE_DURATION API_CONFIG - 1)"
    "now (?w 1800001) = now (empty_world :: json world) + CACHE_DURATION API_CONFIG + 1"
    by (simp_all add: API_CONFIG_def empty_world_def)
  have t: "truthy ?v" by simp
  have r: "requests (?w 1800001) = 0" by (simp add: LocalCache_set_def empty_world_def)
  note a = C2_cache_expiry[where w="?w 1799999" and endpoint="js ''eventos''" and stringify=no_params
      and params="()" and v="?v" and wr=empty_world and cfg=API_CONFIG and net=net_down
      and attempt=1, OF s]
  note b = C2_cache_expiry[where w="?w 1800001" and endpoint="js ''eventos''" and stringify=no_params
      and params="()" and v="?v" and wr=empty_world and cfg=API_CONFIG and net=net_down
      and attempt=1, OF s]
  from a n(1) t have 1: "CENIApiClient_fetch API_CONFIG no_params net_down (js ''eventos'') () 1
      (?w 1799999) = (Inr ?v, ?w 1799999)" by blast
  from b n(2) have 2: "LocalCache_get API_CONFIG ?key (?w 1800001) =
      (None, (?w 1800001)\<lparr>localStorage := (localStorage (?w 1800001))(js ''ceni_'' @ ?key := None)\<rparr>)"
    by blast
  from b n(2) have 3: "requests (?w 1800001) < requests (snd (CENIApiClient_fetch API_CONFIG no_params
      net_down (js ''eventos'') () 1 (?w 1800001)))" by blast
  from 2 have g: "fst (LocalCache_get API_CONFIG ?key (?w 1800001)) = None" by simp
  from 3 have q: "0 < requests (snd (CENIApiClient_fetch API_CONFIG no_params
      net_down (js ''eventos'') () 1 (?w 1800001)))" unfolding r .
  from 1 g q show ?thesis by blast
qed

text \<open>
  Claim C2 as stated fails for an item whose value is falsy: with \<open>false\<close> written at time
  0 and read at \<open>CACHE_DURATION - 1\<close>, \<open>LocalCache.get\<close> returns it but \<open>fetch\<close> goes to the
  network.
\<close>

theorem C2_counterexample:
  "localStorage ((LocalCache_set (js ''eventos'' @ js ''_'' @ no_params ()) (JBool False)
       empty_world)\<lparr>now := 1799999\<rparr>) (js ''ceni_'' @ js ''eventos'' @ js ''_'' @ no_params ()) =
     Some \<lparr>timestamp = 0, data = JBool False\<rparr> \<and>
   CACHE_DURATION API_CONFIG - 1 = 1799999 \<and>
   fst (LocalCache_get API_CONFIG (js ''eventos'' @ js ''_'' @ no_params ())
     ((LocalCache_set (js ''eventos'' @ js ''_'' @ no_params ()) (JBool False)
         empty_world)\<lparr>now := 1799999\<rparr>)) = Some (JBool False) \<and>
   fst (CENIApiClient_fetch API_CONFIG no_params net_down (js ''eventos'') () 1
     ((LocalCache_set (js ''eventos'' @ js ''_'' @ no_params ()) (JBool False)
         empty_world)\<lparr>now := 1799999\<rparr>)) = Inl (HttpError 503 (js ''Service Unavailable'')) \<and>
   events (snd (CENIApiClient_fetch API_CONFIG no_params net_down (js ''eventos'') () 1
     ((LocalCache_set (js ''eventos'' @ js ''_'' @ no_params ()) (JBool False)
         empty_world)\<lparr>now := 1799999\<rparr>))) =
     [HttpRequest, Timeout 1000, HttpRequest, Timeout 2000, HttpRequest]"
  by code_simp

lemma fetchSheet_fails:
  assumes "fst (CacheManager_get CONFIG_CACHE_DURATION gid w) = None"
  shows "snd (net (requests w)) = Rejected \<Longrightarrow>
           fst (fetchSheet net gid w) = Inl FetchRejected \<and>
           requests (snd (fetchSheet net gid w)) = requests w + 1 \<and>
           events (snd (fetchSheet net gid w)) = events w @ [HttpRequest]"
    and "snd (net (requests w)) = Response False status statusText csvText \<Longrightarrow>
           fst (fetchSheet net gid w) = Inl (HttpError status statusText) \<and>
           requests (snd (fetchSheet net gid w)) = requests w + 1 \<and>
           events (snd (fetchSheet net gid w)) = events w @ [HttpRequest]"
proof -
  obtain c w1 where g: "CacheManager_get CONFIG_CACHE_DURATION gid w = (c, w1)"
    by (cases "CacheManager_get CONFIG_CACHE_DURATION gid w")
  with assms have c: "c = None" by simp
  have f: "requests w1 = requests w" "events w1 = events w"
    using g by (auto simp: CacheManager_get_def Let_def split: option.splits if_splits)
  obtain l r where n: "net (requests w) = (l, r)" by (cases "net (requests w)")
  show "snd (net (requests w)) = Rejected \<Longrightarrow>
           fst (fetchSheet net gid w) = Inl FetchRejected \<and>
           requests (snd (fetchSheet net gid w)) = requests w + 1 \<and>
           events (snd (fetchSheet net gid w)) = events w @ [HttpRequest]"
    by (simp add: fetchSheet_def g c f n)
  show "snd (net (requests w)) = Response False status statusText csvText \<Longrightarrow>
           fst (fetchSheet net gid w) = Inl (HttpError status statusText) \<and>
           requests (snd (fetchSheet net gid w)) = requests w + 1 \<and>
           events (snd (fetchSheet net gid w)) = events w @ [HttpRequest]"
    by (simp add: fetchSheet_def g c f n)
qed

text \<open>
  Claim C5, amended. Only the JSON client retries: a call that misses the cache and whose
  requests all fail makes \<open>RETRY_ATTEMPTS\<close> requests, waiting
  \<open>RETRY_DELAY * 2^(attempt - 1)\<close> after each attempt but the last, before it rejects. The
  CSV client \<open>fetchSheet\<close>, on a cache miss and a failed request (rejected, or a status that
  is not a success), rejects at once: one request, no delay.
\<close>

theorem C5_retry_json_only:
  "(cache_hit (fst (LocalCache_get cfg (endpoint @ js ''_'' @ stringify params) w)) = None \<and>
    1 \<le> RETRY_ATTEMPTS cfg \<and>
    (\<forall>k<RETRY_ATTEMPTS cfg. isl (try_response (snd (net (requests w + k))))) \<longrightarrow>
      isl (fst (CENIApiClient_fetch cfg stringify net endpoint params 1 w)) \<and>
      requests (snd (CENIApiClient_fetch cfg stringify net endpoint params 1 w)) =
        requests w + RETRY_ATTEMPTS cfg \<and>
      events (snd (CENIApiClient_fetch cfg stringify net endpoint params 1 w)) =
        events w @
        concat (map (\<lambda>attempt. [HttpRequest, Timeout (RETRY_DELAY cfg * 2 ^ (attempt - 1))])
                    [1..<RETRY_ATTEMPTS cfg]) @ [HttpRequest]) \<and>
   (fst (CacheManager_get CONFIG_CACHE_DURATION gid u) = None \<and>
    snd (sheet_net (requests u)) = Rejected \<longrightarrow>
      fst (fetchSheet sheet_net gid u) = Inl FetchRejected \<and>
      requests (snd (fetchSheet sheet_net gid u)) = requests u + 1 \<and>
      events (snd (fetchSheet sheet_net gid u)) = events u @ [HttpRequest]) \<and>
   (fst (CacheManager_get CONFIG_CACHE_DURATION gid u) = None \<and>
    snd (sheet_net (requests u)) = Response False status statusText csvText \<longrightarrow>
      fst (fetchSheet sheet_net gid u) = Inl (HttpError status statusText) \<and>
      requests (snd (fetchSheet sheet_net gid u)) = requests u + 1 \<and>
      events (snd (fetchSheet sheet_net gid u)) = events u @ [HttpRequest])"
proof (intro conjI impI)
  assume a: "cache_hit (fst (LocalCache_get cfg (endpoint @ js ''_'' @ stringify params) w)) = None \<and>
    1 \<le> RETRY_ATTEMPTS cfg \<and>
    (\<forall>k<RETRY_ATTEMPTS cfg. isl (try_response (snd (net (requests w + k)))))"
  then have fails: "\<forall>k\<le>RETRY_ATTEMPTS cfg - 1. isl (try_response (snd (net (requests w + k))))"
    by auto
  from a have m: "cache_hit (fst (LocalCache_get cfg (endpoint @ js ''_'' @ stringify params) w)) = None"
    by simp
  note f = fetch_retry_fail[where cfg=cfg and endpoint=endpoint and stringify=stringify
      and params=params and w=w and attempt=1 and net=net, OF m refl fails]
  from a have n: "1 + (RETRY_ATTEMPTS cfg - 1) = RETRY_ATTEMPTS cfg" by simp
  show "isl (fst (CENIApiClient_fetch cfg stringify net endpoint params 1 w))"
    using f by simp
  show "requests (snd (CENIApiClient_fetch cfg stringify net endpoint params 1 w)) =
        requests w + RETRY_ATTEMPTS cfg"
    using f a by simp
  show "events (snd (CENIApiClient_fetch cfg stringify net endpoint params 1 w)) =
        events w @
        concat (map (\<lambda>attempt. [HttpRequest, Timeout (RETRY_DELAY cfg * 2 ^ (attempt - 1))])
                    [1..<RETRY_ATTEMPTS cfg]) @ [HttpRequest]"
    using f unfolding n by simp
qed (use fetchSheet_fails in blast)+

theorem C5_retry_json_only_witness:
  "isl (fst (CENIApiClient_fetch API_CONFIG no_params net_down (js ''eventos'') () 1 empty_world)) \<and>
   requests (snd (CENIApiClient_fetch API_CONFIG no_params net_down (js ''eventos'') () 1 empty_world)) = 3 \<and>
   events (snd (CENIApiClient_fetch API_CONFIG no_params net_down (js ''eventos'') () 1 empty_world)) =
     [HttpRequest, Timeout 1000, HttpRequest, Timeout 2000, HttpRequest] \<and>
   fst (fetchSheet (\<lambda>n. (20, Rejected)) (js ''0'') empty_world) = Inl FetchRejected \<and>
   events (snd (fetchSheet (\<lambda>n. (20, Rejected)) (js ''0'') empty_world)) = [HttpRequest] \<and>
   fst (fetchSheet sheet_net_recovers (js ''0'') empty_world) =
     Inl (HttpError 503 (js ''Service Unavailable'')) \<and>
   events (snd (fetchSheet sheet_net_recovers (js ''0'') empty_world)) = [HttpRequest]"
proof -
  have 1: "cache_hit (fst (LocalCache_get API_CONFIG (js ''eventos'' @ js ''_'' @ no_params ())
             (empty_world :: json world))) = None"
    by (simp add: LocalCache_get_def empty_world_def cache_hit_def)
  have 2: "1 \<le> RETRY_ATTEMPTS API_CONFIG" by (simp add: API_CONFIG_def)
  have 3: "\<forall>k<RETRY_ATTEMPTS API_CONFIG.
      isl (try_response (snd (net_down (requests (empty_world :: json world) + k))))"
    by (simp add: net_down_def try_response_def)
  have 4: "fst (CacheManager_get CONFIG_CACHE_DURATION (js ''0'') (empty_world :: jsobj list world)) = None"
    by (simp add: CacheManager_get_def empty_world_def)
  have 5: "snd ((\<lambda>n. (20, Rejected)) (requests (empty_world :: jsobj list world))) = Rejected"
    by simp
  have 6: "snd (sheet_net_recovers (requests (empty_world :: jsobj list world))) =
      Response False 503 (js ''Service Unavailable'') []"
    by (simp add: sheet_net_recovers_def empty_world_def)
  have u: "[1..<RETRY_ATTEMPTS API_CONFIG] = [1, 2]"
    by (simp add: API_CONFIG_def upt_conv_Cons)
  note a = C5_retry_json_only[where cfg=API_CONFIG and endpoint="js ''eventos''" and stringify=no_params
      and params="()" and w=empty_world and net=net_down and gid="js ''0''"
      and u="empty_world" and sheet_net="\<lambda>n. (20, Rejected)"]
  note b = C5_retry_json_only[where cfg=API_CONFIG and endpoint="js ''eventos''" and stringify=no_params
      and params="()" and w=empty_world and net=net_down and gid="js ''0''"
      and u="empty_world" and sheet_net=sheet_net_recovers and status=503
      and statusText="js ''Service Unavailable''" and csvText="[]"]
  from a 1 2 3 have j: "isl (fst (CENIApiClient_fetch API_CONFIG no_params net_down (js ''eventos'') () 1
        empty_world)) \<and>
      requests (snd (CENIApiClient_fetch API_CONFIG no_params net_down (js ''eventos'') () 1 empty_world)) =
        requests (empty_world :: json world) + RETRY_ATTEMPTS API_CONFIG \<and>
      events (snd (CENIApiClient_fetch API_CONFIG no_params net_down (js ''eventos'') () 1 empty_world)) =
        events (empty_world :: json world) @
        concat (map (\<lambda>attempt. [HttpRequest, Timeout (RETRY_DELAY API_CONFIG * 2 ^ (attempt - 1))])
                    [1..<RETRY_ATTEMPTS API_CONFIG]) @ [HttpRequest]"
    by blast
  from a 4 5 have c1: "fst (fetchSheet (\<lambda>n. (20, Rejected)) (js ''0'') empty_world) = Inl FetchRejected \<and>
      events (snd (fetchSheet (\<lambda>n. (20, Rejected)) (js ''0'') empty_world)) =
        events (empty_world :: jsobj list world) @ [HttpRequest]"
    by blast
  from b 4 6 have c2: "fst (fetchSheet sheet_net_recovers (js ''0'') empty_world) =
        Inl (HttpError 503 (js ''Service Unavailable'')) \<and>
      events (snd (fetchSheet sheet_net_recovers (js ''0'') empty_world)) =
        events (empty_world :: jsobj list world) @ [HttpRequest]"
    by blast
  from j have j': "isl (fst (CENIApiClient_fetch API_CONFIG no_params net_down (js ''eventos'') () 1
        empty_world)) \<and>
      requests (snd (CENIApiClient_fetch API_CONFIG no_params net_down (js ''eventos'') () 1 empty_world)) = 3 \<and>
      events (snd (CENIApiClient_fetch API_CONFIG no_params net_down (js ''eventos'') () 1 empty_world)) =
        [HttpRequest, Timeout 1000, HttpRequest, Timeout 2000, HttpRequest]"
    unfolding u by (simp add: empty_world_def API_CONFIG_def)
  from c1 c2 have c: "fst (fetchSheet (\<lambda>n. (20, Rejected)) (js ''0'') empty_world) = Inl FetchRejected \<and>
      events (snd (fetchSheet (\<lambda>n. (20, Rejected)) (js ''0'') empty_world)) = [HttpRequest] \<and>
      fst (fetchSheet sheet_net_recovers (js ''0'') empty_world) =
        Inl (HttpError 503 (js ''Service Unavailable'')) \<and>
      events (snd (fetchSheet sheet_net_recovers (js ''0'') empty_world)) = [HttpRequest]"
    by (simp add: empty_world_def)
  from j' c show ?thesis by blast
qed

text \<open>
  Claim C5 as stated fails for the CSV client: with an empty cache and a server that fails
  the first request and would answer the second, \<open>fetchSheet\<close> rejects after a single
  request and no delay.
\<close>

theorem C5_counterexample:
  "fst (CacheManager_get CONFIG_CACHE_DURATION (js ''0'') (empty_world :: jsobj list world)) = None \<and>
   snd (sheet_net_recovers 0) = Response False 503 (js ''Service Unavailable'') [] \<and>
   snd (sheet_net_recovers 1) = Response True 200 (js ''OK'') (js ''a,b'' @ [newline] @ js ''1,2'') \<and>
   fst (fetchSheet sheet_net_recovers (js ''0'') empty_world) =
     Inl (HttpError 503 (js ''Service Unavailable'')) \<and>
   requests (snd (fetchSheet sheet_net_recovers (js ''0'') empty_world)) = 1 \<and>
   events (snd (fetchSheet sheet_net_recovers (js ''0'') empty_world)) = [HttpRequest]"
  by code_simp

end
